theory Spec2Isabelle
  imports Complex_Main "HOL-Library.AList" "HOL-Library.Sublist" "HOL-Library.Multiset"
begin

section \<open>Python values shared by the workers\<close>

text \<open>
  A \<^verbatim>\<open>datetime\<close> is its calendar reading \<open>wall\<close>, counted in microseconds from a fixed
  midnight, and its \<^verbatim>\<open>tzinfo\<close>: \<open>None\<close> for a naive value, the UTC offset in microseconds
  for an aware one. A \<^verbatim>\<open>timedelta\<close> is an integer number of microseconds.
  Python refuses to subtract or compare a naive and an aware value (\<^verbatim>\<open>TypeError\<close>).
\<close>

datatype datetime = Datetime (wall: int) (tzinfo: "int option")

datatype py_error = TypeError | ValueError | KeyError | AttributeError

definition dt_sub :: "datetime \<Rightarrow> datetime \<Rightarrow> py_error + int" where
  "dt_sub a b =
     (case tzinfo a of
        None \<Rightarrow> (case tzinfo b of None \<Rightarrow> Inr (wall a - wall b) | Some ob \<Rightarrow> Inl TypeError)
      | Some oa \<Rightarrow> (case tzinfo b of None \<Rightarrow> Inl TypeError
                     | Some ob \<Rightarrow> Inr ((wall a - oa) - (wall b - ob))))"

definition dt_le :: "datetime \<Rightarrow> datetime \<Rightarrow> py_error + bool" where
  "dt_le a b = (case dt_sub a b of Inl e \<Rightarrow> Inl e | Inr d \<Rightarrow> Inr (d \<le> 0))"

definition hour :: "datetime \<Rightarrow> int" where
  "hour d = (wall d div 3600000000) mod 24"

definition timedelta_minutes :: "int \<Rightarrow> int" where
  "timedelta_minutes m = m * 60000000"

definition timedelta_hours :: "int \<Rightarrow> int" where
  "timedelta_hours h = h * 3600000000"


text \<open>
  \<^verbatim>\<open>int(delta.total_seconds() / 60)\<close>: the quotient is truncated towards zero. The source
  divides floats; the exact quotient is used here (the two agree while the delta stays
  below a century).
\<close>

definition whole_minutes :: "int \<Rightarrow> int" where
  "whole_minutes delta =
     (if 0 \<le> delta then delta div 60000000 else - ((- delta) div 60000000))"

text \<open>\<^verbatim>\<open>str(n)\<close> of an integer, as the f-strings building Redis keys use it.\<close>

definition digit_char :: "nat \<Rightarrow> char" where
  "digit_char d = char_of (48 + d)"

function str_nat :: "nat \<Rightarrow> string" where
  "str_nat n = (if n < 10 then [digit_char n] else str_nat (n div 10) @ [digit_char (n mod 10)])"
  by pat_completeness auto
termination
  by (relation "measure id") auto

declare str_nat.simps [simp del]

definition str_int :: "int \<Rightarrow> string" where
  "str_int i = (if i < 0 then CHR ''-'' # str_nat (nat (- i)) else str_nat (nat i))"

text \<open>A \<^verbatim>\<open>dict\<close> used as a counter keeps its keys in insertion order.\<close>

fun incr_count :: "'k \<Rightarrow> ('k \<times> int) list \<Rightarrow> ('k \<times> int) list" where
  "incr_count k [] = [(k, 1)]"
| "incr_count k ((k', c) # m) = (if k' = k then (k', c + 1) # m else (k', c) # incr_count k m)"

definition count_of :: "('k \<times> int) list \<Rightarrow> 'k \<Rightarrow> int" where
  "count_of m k = (case map_of m k of None \<Rightarrow> 0 | Some c \<Rightarrow> c)"

text \<open>\<^verbatim>\<open>max(xs, key=f)\<close> returns the first element whose key is greatest.\<close>

definition py_max_key :: "('a \<Rightarrow> int) \<Rightarrow> 'a list \<Rightarrow> 'a option" where
  "py_max_key f xs =
     (case xs of [] \<Rightarrow> None
      | x # ys \<Rightarrow> Some (foldl (\<lambda>best y. if f best < f y then y else best) x ys))"

section \<open>Analytics worker: \<^verbatim>\<open>analytics_worker.py\<close>\<close>

subsection \<open>Activities and statistics\<close>

text \<open>
  An activity is one dictionary of the list that the activity store returns. Its
  \<^verbatim>\<open>timestamp\<close> is kept as what \<^verbatim>\<open>datetime.fromisoformat\<close> makes of it (\<open>None\<close>: the
  string is not an ISO timestamp and the call raises \<^verbatim>\<open>ValueError\<close>); of its
  \<^verbatim>\<open>metadata\<close> the two entries that the statistics read.
\<close>

record activity =
  act_task_id :: int
  act_action :: string
  act_timestamp :: "datetime option"
  act_priority :: "string option"
  act_was_overdue :: bool

record ProductivityStats =
  user_id :: int
  period_start :: datetime
  period_end :: datetime
  total_tasks :: int
  completed_tasks :: int
  cancelled_tasks :: int
  overdue_tasks :: int
  completion_rate :: rat
  average_completion_time_hours :: "rat option"
  most_productive_hour :: "int option"
  tasks_by_priority :: "(string \<times> int) list"
  tasks_by_status :: "(string \<times> int) list"

text \<open>The counters and lists that \<^verbatim>\<open>_calculate_productivity_stats\<close> accumulates.\<close>

record counters =
  n_total_tasks :: int
  n_completed_tasks :: int
  n_cancelled_tasks :: int
  n_overdue_tasks :: int
  completion_times :: "rat list"
  completion_hours :: "int list"
  priority_counts :: "(string \<times> int) list"

definition counters0 :: counters where
  "counters0 = \<lparr>n_total_tasks = 0, n_completed_tasks = 0, n_cancelled_tasks = 0,
     n_overdue_tasks = 0, completion_times = [], completion_hours = [], priority_counts = []\<rparr>"

text \<open>\<^verbatim>\<open>task_activities[activity["task_id"]].append(activity)\<close> on a \<^verbatim>\<open>defaultdict(list)\<close>.\<close>

fun append_activity :: "activity \<Rightarrow> (int \<times> activity list) list \<Rightarrow> (int \<times> activity list) list" where
  "append_activity a [] = [(act_task_id a, [a])]"
| "append_activity a ((k, l) # m) =
     (if k = act_task_id a then (k, l @ [a]) # m else (k, l) # append_activity a m)"

definition group_by_task :: "activity list \<Rightarrow> (int \<times> activity list) list" where
  "group_by_task activities = foldl (\<lambda>m a. append_activity a m) [] activities"

text \<open>
  One turn of the inner loop over a task's activities. The state is the local
  \<^verbatim>\<open>created\<close>, the local \<^verbatim>\<open>final_priority\<close> and the counters.
\<close>

type_synonym task_scan = "datetime option \<times> string \<times> counters"

definition activity_step :: "activity \<Rightarrow> task_scan \<Rightarrow> py_error + task_scan" where
  "activity_step a s =
     (case s of (created, final_priority, c) \<Rightarrow>
        if act_action a = ''created'' then
          (case act_timestamp a of
             None \<Rightarrow> Inl ValueError
           | Some t \<Rightarrow>
               Inr (Some t, (case act_priority a of None \<Rightarrow> ''medium'' | Some p \<Rightarrow> p), c))
        else if act_action a = ''completed'' then
          (case act_timestamp a of
             None \<Rightarrow> Inl ValueError
           | Some completed \<Rightarrow>
               (let c1 = c\<lparr>n_completed_tasks := n_completed_tasks c + 1,
                            completion_hours := completion_hours c @ [hour completed]\<rparr>
                in case (case created of
                           None \<Rightarrow> Inr c1
                         | Some cr \<Rightarrow>
                             (case dt_sub completed cr of
                                Inl e \<Rightarrow> Inl e
                              | Inr d \<Rightarrow>
                                  Inr (c1\<lparr>completion_times :=
                                         completion_times c1 @ [of_int d / 3600000000]\<rparr>))) of
                     Inl e \<Rightarrow> Inl e
                   | Inr c2 \<Rightarrow>
                       Inr (created, final_priority,
                            if act_was_overdue a
                            then c2\<lparr>n_overdue_tasks := n_overdue_tasks c2 + 1\<rparr> else c2)))
        else if act_action a = ''cancelled'' then
          Inr (created, final_priority, c\<lparr>n_cancelled_tasks := n_cancelled_tasks c + 1\<rparr>)
        else Inr s)"

fun task_loop :: "activity list \<Rightarrow> task_scan \<Rightarrow> py_error + task_scan" where
  "task_loop [] s = Inr s"
| "task_loop (a # as) s =
     (case activity_step a s of Inl e \<Rightarrow> Inl e | Inr s' \<Rightarrow> task_loop as s')"

text \<open>The outer loop over \<^verbatim>\<open>task_activities.items()\<close>.\<close>

fun tasks_loop :: "(int \<times> activity list) list \<Rightarrow> counters \<Rightarrow> py_error + counters" where
  "tasks_loop [] c = Inr c"
| "tasks_loop ((task_id, task_activities_list) # rest) c =
     (case task_loop task_activities_list
             (None, ''medium'', c\<lparr>n_total_tasks := n_total_tasks c + 1\<rparr>) of
        Inl e \<Rightarrow> Inl e
      | Inr (created, final_priority, c') \<Rightarrow>
          tasks_loop rest
            (c'\<lparr>priority_counts := incr_count final_priority (priority_counts c')\<rparr>))"

definition mean :: "rat list \<Rightarrow> rat" where
  "mean xs = sum_list xs / of_nat (length xs)"

definition hour_counts :: "int list \<Rightarrow> (int \<times> int) list" where
  "hour_counts hours = foldl (\<lambda>m h. incr_count h m) [] hours"

definition final_stats :: "int \<Rightarrow> datetime \<Rightarrow> datetime \<Rightarrow> counters \<Rightarrow> ProductivityStats" where
  "final_stats uid start_date end_date c =
     \<lparr>user_id = uid,
      period_start = start_date,
      period_end = end_date,
      total_tasks = n_total_tasks c,
      completed_tasks = n_completed_tasks c,
      cancelled_tasks = n_cancelled_tasks c,
      overdue_tasks = n_overdue_tasks c,
      completion_rate =
        (if n_total_tasks c > 0 then of_int (n_completed_tasks c) / of_int (n_total_tasks c)
         else 0),
      average_completion_time_hours =
        (if completion_times c \<noteq> [] then Some (mean (completion_times c)) else None),
      most_productive_hour =
        (if completion_hours c \<noteq> []
         then (let hc = hour_counts (completion_hours c) in py_max_key (count_of hc) (map fst hc))
         else None),
      tasks_by_priority = priority_counts c,
      tasks_by_status =
        [(''todo'', n_total_tasks c - n_completed_tasks c - n_cancelled_tasks c),
         (''completed'', n_completed_tasks c),
         (''cancelled'', n_cancelled_tasks c),
         (''in_progress'', 0)]\<rparr>"

text \<open>
  \<^verbatim>\<open>_calculate_productivity_stats\<close>: any exception is logged and raised again, so the
  result is the error or the statistics.
\<close>

definition calculate_productivity_stats ::
  "int \<Rightarrow> activity list \<Rightarrow> datetime \<Rightarrow> datetime \<Rightarrow> py_error + ProductivityStats" where
  "calculate_productivity_stats uid activities start_date end_date =
     (case tasks_loop (group_by_task activities) counters0 of
        Inl e \<Rightarrow> Inl e
      | Inr c \<Rightarrow> Inr (final_stats uid start_date end_date c))"

subsection \<open>Generating the analytics of one user\<close>












subsection \<open>What the statistics are compared with\<close>

text \<open>
  The notions the properties of the statistics are stated with: the tasks of a list of
  activities in the order of their first activity, the activities of one task, the
  completion and creation activities, the creation activity that last precedes a position
  of a task's list, and the hours between a creation and a completion.
  \<open>claimed_average\<close> follows the words of the specification: one duration for each task
  that has a creation and a completion, wherever they stand in the list.
\<close>

definition task_ids :: "activity list \<Rightarrow> int list" where
  "task_ids acts = rev (remdups (rev (map act_task_id acts)))"

definition activities_of :: "int \<Rightarrow> activity list \<Rightarrow> activity list" where
  "activities_of t acts = filter (\<lambda>a. act_task_id a = t) acts"

definition is_completion :: "activity \<Rightarrow> bool" where
  "is_completion a = (act_action a = ''completed'')"

definition is_creation :: "activity \<Rightarrow> bool" where
  "is_creation a = (act_action a = ''created'')"

definition last_creation_before :: "activity list \<Rightarrow> nat \<Rightarrow> activity option" where
  "last_creation_before l i =
     (case filter is_creation (rev (take i l)) of [] \<Rightarrow> None | cr # _ \<Rightarrow> Some cr)"

definition hours_between :: "activity \<Rightarrow> activity \<Rightarrow> rat list" where
  "hours_between cr a =
     (case act_timestamp cr of None \<Rightarrow> []
      | Some c \<Rightarrow> (case act_timestamp a of None \<Rightarrow> []
          | Some t \<Rightarrow> (case dt_sub t c of Inl e \<Rightarrow> [] | Inr d \<Rightarrow> [of_int d / 3600000000])))"

definition task_durations :: "activity list \<Rightarrow> rat list" where
  "task_durations l =
     concat (map (\<lambda>i. if is_completion (l ! i)
                       then (case last_creation_before l i of None \<Rightarrow> []
                             | Some cr \<Rightarrow> hours_between cr (l ! i))
                       else []) [0..<length l])"

definition all_durations :: "activity list \<Rightarrow> rat list" where
  "all_durations acts = concat (map (\<lambda>t. task_durations (activities_of t acts)) (task_ids acts))"

definition completion_hour :: "activity \<Rightarrow> int" where
  "completion_hour a = (case act_timestamp a of None \<Rightarrow> 0 | Some t \<Rightarrow> hour t)"

definition completions_at :: "activity list \<Rightarrow> int \<Rightarrow> nat" where
  "completions_at acts h = length (filter (\<lambda>a. is_completion a \<and> completion_hour a = h) acts)"

definition latest_creation :: "activity list \<Rightarrow> activity option" where
  "latest_creation p = last_creation_before p (length p)"

definition created_agrees :: "datetime option \<Rightarrow> activity list \<Rightarrow> bool" where
  "created_agrees created p =
     (case latest_creation p of None \<Rightarrow> created = None
      | Some cr \<Rightarrow> (\<exists>t. created = Some t \<and> act_timestamp cr = Some t))"

definition measured :: "activity list \<Rightarrow> nat \<Rightarrow> rat list" where
  "measured l i =
     (if is_completion (l ! i)
      then (case last_creation_before l i of None \<Rightarrow> [] | Some cr \<Rightarrow> hours_between cr (l ! i))
      else [])"

definition naive_timestamp :: "activity \<Rightarrow> bool" where
  "naive_timestamp a = (case act_timestamp a of None \<Rightarrow> False | Some t \<Rightarrow> tzinfo t = None)"

definition naive_opt :: "datetime option \<Rightarrow> bool" where
  "naive_opt created = (case created of None \<Rightarrow> True | Some t \<Rightarrow> tzinfo t = None)"

definition claimed_durations :: "activity list \<Rightarrow> rat list" where
  "claimed_durations acts =
     concat (map (\<lambda>t. case find is_creation (activities_of t acts) of
                         None \<Rightarrow> []
                       | Some cr \<Rightarrow> (case find is_completion (activities_of t acts) of
                                      None \<Rightarrow> []
                                    | Some co \<Rightarrow> hours_between cr co))
             (task_ids acts))"

definition claimed_average :: "activity list \<Rightarrow> rat option" where
  "claimed_average acts =
     (if claimed_durations acts = [] then None else Some (mean (claimed_durations acts)))"

definition creation_listed_last :: "activity list" where
  "creation_listed_last =
     [\<lparr>act_task_id = 1, act_action = ''completed'',
        act_timestamp = Some (Datetime 36000000000 None), act_priority = None,
        act_was_overdue = False\<rparr>,
      \<lparr>act_task_id = 1, act_action = ''created'',
        act_timestamp = Some (Datetime 0 None), act_priority = Some ''high'',
        act_was_overdue = False\<rparr>]"

definition two_tasks :: "activity list" where
  "two_tasks =
     [\<lparr>act_task_id = 1, act_action = ''created'',
        act_timestamp = Some (Datetime 0 None), act_priority = Some ''high'',
        act_was_overdue = False\<rparr>,
      \<lparr>act_task_id = 2, act_action = ''completed'',
        act_timestamp = Some (Datetime 93600000000 None), act_priority = None,
        act_was_overdue = True\<rparr>,
      \<lparr>act_task_id = 1, act_action = ''completed'',
        act_timestamp = Some (Datetime 7200000000 None), act_priority = None,
        act_was_overdue = False\<rparr>,
      \<lparr>act_task_id = 2, act_action = ''created'',
        act_timestamp = Some (Datetime 3600000000 None), act_priority = None,
        act_was_overdue = False\<rparr>]"

definition completed_twice :: "activity list" where
  "completed_twice =
     [\<lparr>act_task_id = 1, act_action = ''completed'',
        act_timestamp = Some (Datetime 36000000000 None), act_priority = None,
        act_was_overdue = False\<rparr>,
      \<lparr>act_task_id = 1, act_action = ''completed'',
        act_timestamp = Some (Datetime 36000000000 None), act_priority = None,
        act_was_overdue = False\<rparr>]"



section \<open>Naming lint: \<^verbatim>\<open>scripts/validate_naming.py\<close>\<close>

subsection \<open>Regular expressions\<close>

text \<open>
  The regular expressions of the script are matched by derivatives. \<open>Chars cs\<close> is a
  character class, \<open>Star\<close> the repetition.
\<close>

datatype rexp = Zero | One | Chars "char list" | Alt rexp rexp | Seq rexp rexp | Star rexp

fun nullable :: "rexp \<Rightarrow> bool" where
  "nullable Zero = False"
| "nullable One = True"
| "nullable (Chars cs) = False"
| "nullable (Alt r s) = (nullable r \<or> nullable s)"
| "nullable (Seq r s) = (nullable r \<and> nullable s)"
| "nullable (Star r) = True"

fun deriv :: "char \<Rightarrow> rexp \<Rightarrow> rexp" where
  "deriv c Zero = Zero"
| "deriv c One = Zero"
| "deriv c (Chars cs) = (if c \<in> set cs then One else Zero)"
| "deriv c (Alt r s) = Alt (deriv c r) (deriv c s)"
| "deriv c (Seq r s) =
     (if nullable r then Alt (Seq (deriv c r) s) (deriv c s) else Seq (deriv c r) s)"
| "deriv c (Star r) = Seq (deriv c r) (Star r)"

definition fullmatch :: "rexp \<Rightarrow> string \<Rightarrow> bool" where
  "fullmatch r s = nullable (foldl (\<lambda>r c. deriv c r) r s)"

definition Lit :: "string \<Rightarrow> rexp" where
  "Lit s = foldr (\<lambda>c r. Seq (Chars [c]) r) s One"

definition Plus1 :: "rexp \<Rightarrow> rexp" where
  "Plus1 r = Seq r (Star r)"

definition Alts :: "rexp list \<Rightarrow> rexp" where
  "Alts rs = foldr Alt rs Zero"

definition lower :: "char list" where
  "lower = ''abcdefghijklmnopqrstuvwxyz''"

text \<open>
  \<^verbatim>\<open>^[a-z]+_[a-z_]+_(api|bot|worker|gateway|stream|scheduler|cli|webhook)$\<close>, without its
  anchors.
\<close>

definition VALID_SERVICE_PATTERN :: rexp where
  "VALID_SERVICE_PATTERN =
     Seq (Plus1 (Chars lower))
       (Seq (Lit ''_'')
         (Seq (Plus1 (Chars (lower @ ''_'')))
           (Seq (Lit ''_'')
             (Alts (map Lit [''api'', ''bot'', ''worker'', ''gateway'', ''stream'',
                             ''scheduler'', ''cli'', ''webhook''])))))"

text \<open>
  \<^verbatim>\<open>pattern.match(s)\<close> for a pattern anchored by \<^verbatim>\<open>^\<close> and \<^verbatim>\<open>$\<close>: the whole string
  matches, or the string without one final newline does (\<^verbatim>\<open>$\<close> also matches before it).
\<close>

definition re_match :: "rexp \<Rightarrow> string \<Rightarrow> bool" where
  "re_match r s =
     (fullmatch r s \<or> (s \<noteq> [] \<and> last s = CHR 0x0A \<and> fullmatch r (butlast s)))"

definition INFRASTRUCTURE_SERVICES :: "string list" where
  "INFRASTRUCTURE_SERVICES =
     [''nginx'', ''postgres'', ''mongodb'', ''redis'', ''rabbitmq'',
      ''prometheus'', ''grafana'', ''jaeger'', ''elasticsearch'',
      ''logstash'', ''kibana'', ''filebeat'', ''adminer'']"

subsection \<open>String methods\<close>

definition isspace :: "char \<Rightarrow> bool" where
  "isspace c = (c \<in> set [CHR 0x09, CHR 0x0A, CHR 0x0B, CHR 0x0C, CHR 0x0D,
                          CHR 0x1C, CHR 0x1D, CHR 0x1E, CHR 0x1F, CHR '' ''])"

definition strip :: "string \<Rightarrow> string" where
  "strip s = rev (dropWhile isspace (rev (dropWhile isspace s)))"

definition startswith :: "string \<Rightarrow> string \<Rightarrow> bool" where
  "startswith s p = (take (length p) s = p)"

definition endswith :: "string \<Rightarrow> string \<Rightarrow> bool" where
  "endswith s p = (length p \<le> length s \<and> drop (length s - length p) s = p)"

text \<open>\<^verbatim>\<open>s.split(sep)\<close> for a separator of one character.\<close>

fun split :: "char \<Rightarrow> string \<Rightarrow> string list" where
  "split sep [] = [[]]"
| "split sep (c # s) =
     (if c = sep then [] # split sep s
      else (case split sep s of [] \<Rightarrow> [[c]] | w # ws \<Rightarrow> (c # w) # ws))"

subsection \<open>The three checks and \<^verbatim>\<open>main\<close>\<close>

text \<open>
  What the script reads. A directory or file that does not exist is \<open>None\<close>; a file
  whose \<^verbatim>\<open>read_text\<close> raises is \<open>Inl\<close> of the exception's text. For a docker-compose file
  the content is kept; for an nginx configuration the \<^verbatim>\<open>group(1)\<close> of every match of
  \<^verbatim>\<open>^upstream\s+([a-z_]+)\s*\{\<close>, and for the Makefile the \<^verbatim>\<open>group(1)\<close> of every match
  of \<^verbatim>\<open>services/\{([^}]+)\}\<close>, in the order of \<^verbatim>\<open>re.finditer\<close>.
\<close>

record repo_files =
  compose_files :: "(string \<times> (string + string)) list option"
  nginx_files :: "(string \<times> (string + string list)) list option"
  makefile :: "(string + string list) option"

text \<open>\<^verbatim>\<open>re.match(r'^  ([a-z_]+):', line)\<close> and its \<^verbatim>\<open>group(1)\<close>.\<close>

definition service_of_line :: "string \<Rightarrow> string option" where
  "service_of_line line =
     (if startswith line ''  '' then
        (let rest = drop 2 line;
             name = takeWhile (\<lambda>c. c \<in> set (lower @ ''_'')) rest
         in if name \<noteq> [] \<and> startswith (drop (length name) rest) '':'' then Some name else None)
      else None)"

text \<open>The loop over the lines of one docker-compose file; \<open>in_services\<close> is its flag.\<close>

fun compose_lines :: "string \<Rightarrow> bool \<Rightarrow> string list \<Rightarrow> (string \<times> string) list" where
  "compose_lines fname in_services [] = []"
| "compose_lines fname in_services (line # lines) =
     (if startswith (strip line) ''services:'' then compose_lines fname True lines
      else
        (let in_services' =
               (if in_services \<and> line \<noteq> [] \<and> \<not> isspace (hd line) then False else in_services)
         in if in_services' \<and> startswith line ''  '' \<and> \<not> startswith line ''    '' then
              (case service_of_line line of
                 None \<Rightarrow> compose_lines fname in_services' lines
               | Some service \<Rightarrow>
                   if service \<in> set INFRASTRUCTURE_SERVICES
                   then compose_lines fname in_services' lines
                   else if \<not> re_match VALID_SERVICE_PATTERN service
                   then (fname, service) # compose_lines fname in_services' lines
                   else compose_lines fname in_services' lines)
            else compose_lines fname in_services' lines))"

definition read_error :: "string \<Rightarrow> string" where
  "read_error e = ''Error reading file: '' @ e"

definition check_docker_compose_files :: "repo_files \<Rightarrow> (string \<times> string) list" where
  "check_docker_compose_files files =
     (case compose_files files of
        None \<Rightarrow> []
      | Some fs \<Rightarrow>
          concat (map (\<lambda>(fname, text).
                    case text of
                      Inl e \<Rightarrow> [(fname, read_error e)]
                    | Inr content \<Rightarrow> compose_lines fname False (split CHR 0x0A content)) fs))"

definition nginx_upstreams :: "string \<Rightarrow> string list \<Rightarrow> (string \<times> string) list" where
  "nginx_upstreams fname upstreams =
     map (\<lambda>upstream. (fname, upstream))
       (filter (\<lambda>upstream.
                  \<not> (upstream \<in> set INFRASTRUCTURE_SERVICES \<or> endswith upstream ''_management'')
                  \<and> \<not> re_match VALID_SERVICE_PATTERN upstream) upstreams)"

definition check_nginx_configs :: "repo_files \<Rightarrow> (string \<times> string) list" where
  "check_nginx_configs files =
     (case nginx_files files of
        None \<Rightarrow> []
      | Some fs \<Rightarrow>
          concat (map (\<lambda>(fname, text).
                    case text of
                      Inl e \<Rightarrow> [(fname, read_error e)]
                    | Inr upstreams \<Rightarrow> nginx_upstreams fname upstreams) fs))"

definition makefile_group :: "string \<Rightarrow> (string \<times> string) list" where
  "makefile_group g =
     map (\<lambda>service. (''Makefile'', service))
       (filter (\<lambda>service. service \<noteq> [] \<and> \<not> re_match VALID_SERVICE_PATTERN service)
          (map strip (split CHR '','' g)))"

definition check_makefile :: "repo_files \<Rightarrow> (string \<times> string) list" where
  "check_makefile files =
     (case makefile files of
        None \<Rightarrow> []
      | Some (Inl e) \<Rightarrow> [(''Makefile'', read_error e)]
      | Some (Inr groups) \<Rightarrow> concat (map makefile_group groups))"

definition all_errors :: "repo_files \<Rightarrow> (string \<times> string \<times> string) list" where
  "all_errors files =
     map (\<lambda>(f, s). (''Docker Compose'', f, s)) (check_docker_compose_files files)
     @ map (\<lambda>(f, s). (''Nginx Config'', f, s)) (check_nginx_configs files)
     @ map (\<lambda>(f, s). (''Makefile'', f, s)) (check_makefile files)"

definition main :: "repo_files \<Rightarrow> int" where
  "main files = (if all_errors files \<noteq> [] then 1 else 0)"

text \<open>A Makefile that creates \<^verbatim>\<open>services/{redis}\<close>, and a docker-compose file with the same service.\<close>

definition redis_in_makefile :: repo_files where
  "redis_in_makefile = \<lparr>compose_files = None, nginx_files = None, makefile = Some (Inr [''redis''])\<rparr>"

definition redis_in_compose :: repo_files where
  "redis_in_compose =
     \<lparr>compose_files = Some [(''docker-compose.yml'', Inr (''services:'' @ [CHR 0x0A] @ ''  redis:''))],
      nginx_files = Some [(''api.conf'', Inr [''redis''])], makefile = None\<rparr>"

section \<open>Reminder worker: \<^verbatim>\<open>reminder_worker.py\<close>\<close>

subsection \<open>Tasks, events and stored values\<close>

datatype TaskStatus = TODO | IN_PROGRESS | COMPLETED | CANCELLED

datatype TaskPriority = LOW | MEDIUM | HIGH | URGENT

record TaskResponse =
  t_title :: string
  t_description :: "string option"
  t_status :: TaskStatus
  t_priority :: TaskPriority
  t_due_date :: "datetime option"
  t_id :: int
  t_user_id :: int
  t_created_at :: datetime
  t_updated_at :: datetime
  t_completed_at :: "datetime option"

text \<open>
  The event models of \<^verbatim>\<open>shared_dtos.py\<close> that the worker publishes, with the fields it
  sets (the defaulted \<^verbatim>\<open>timestamp\<close>, \<^verbatim>\<open>request_id\<close> and \<^verbatim>\<open>event_type\<close> are left out).
\<close>

datatype event_data =
    TaskDueSoonEvent (ev_task_id: int) (ev_user_id: int) (ev_task_data: TaskResponse)
      (due_in_minutes: int)
  | TaskOverdueEvent (ev_task_id: int) (ev_user_id: int) (ev_task_data: TaskResponse)
      (overdue_minutes: int)

text \<open>
  A decoded JSON document. \<open>JTime d\<close> is a JSON string that holds an ISO timestamp, kept
  as the \<^verbatim>\<open>datetime\<close> that \<^verbatim>\<open>datetime.fromisoformat\<close> makes of it; \<open>JStr\<close> is any
  other string; \<open>JObj\<close> is a \<^verbatim>\<open>dict\<close>. Arrays, booleans and floats are left out: where
  the worker meets one it does what it does on an integer.
\<close>

datatype json = JNull | JInt int | JStr string | JTime datetime | JObj "(string \<times> json) list"

text \<open>
  A string stored in Redis (the client decodes responses), by what the worker's parsers
  make of it: \<open>Json j\<close> is a string that \<^verbatim>\<open>orjson.loads\<close> decodes to \<open>j\<close>, \<open>Iso d\<close> a
  string that \<^verbatim>\<open>datetime.fromisoformat\<close> reads as \<open>d\<close>, \<open>Text s\<close> any other string.
\<close>

datatype redis_value = Text string | Iso datetime | Json json

text \<open>The text of a Telegram message, by the template that builds it and what fills it.\<close>

datatype message =
    DueSoonMessage TaskResponse int
  | OverdueMessage TaskResponse int
  | ReminderMessage TaskResponse json

text \<open>
  What the worker does, in order. The first four entries are calls of its own methods
  (with their arguments), the last two are requests that leave the process: a
  \<^verbatim>\<open>publish\<close> on the \<^verbatim>\<open>task_events\<close> exchange with its routing key, the message and
  whether the broker took it, and a \<^verbatim>\<open>POST /send-notification\<close> to the bot service.
\<close>

datatype action =
    PublishTaskEvent string event_data
  | SendDueSoonNotification TaskResponse int
  | SendOverdueNotification TaskResponse int
  | SendScheduledReminder json
  | ExchangePublish string event_data bool
  | TelegramNotification json message

subsection \<open>The worker's surroundings\<close>

text \<open>
  \<open>now\<close> is the clock, the microseconds of the \<^verbatim>\<open>datetime.utcnow()\<close> reading; it does not
  move during one call of a method of the worker. \<open>redis\<close> holds for every key its
  value and the time at which it expires. \<open>broker\<close> lists how the coming \<^verbatim>\<open>publish\<close>
  calls end (\<open>False\<close>: the call raises; when the list is used up they succeed).
  \<open>task_api\<close> is the answer of the task service to \<^verbatim>\<open>GET /api/v1/tasks/{task_id}\<close> for a
  user: \<open>None\<close> when the request raises, otherwise the status code and the body as
  \<^verbatim>\<open>TaskResponse(**body)\<close> reads it (\<open>None\<close>: the validation raises). \<open>history\<close> is what
  the worker has done so far, each entry with the time at which it happened. Log lines
  are not recorded.
\<close>

type_synonym redis_store = "(string \<times> redis_value \<times> int option) list"

record world =
  now :: int
  redis :: redis_store
  broker :: "bool list"
  task_api :: "json \<Rightarrow> json \<Rightarrow> (nat \<times> TaskResponse option) option"
  history :: "(int \<times> action) list"

definition DUE_SOON_MINUTES :: int where
  "DUE_SOON_MINUTES = 60"

definition REMINDER_RETRY_ATTEMPTS :: int where
  "REMINDER_RETRY_ATTEMPTS = 3"

definition REMINDER_RETRY_DELAY :: int where
  "REMINDER_RETRY_DELAY = 60"

definition utcnow :: "world \<Rightarrow> datetime" where
  "utcnow w = Datetime (now w) None"

definition record_action :: "action \<Rightarrow> world \<Rightarrow> world" where
  "record_action a w = w\<lparr>history := history w @ [(now w, a)]\<rparr>"

text \<open>Redis: \<^verbatim>\<open>GET\<close>, \<^verbatim>\<open>SETEX\<close>, \<^verbatim>\<open>DEL\<close> and \<^verbatim>\<open>SCAN\<close> with a pattern \<^verbatim>\<open>prefix*\<close>.\<close>

definition unexpired :: "int \<Rightarrow> redis_value \<times> int option \<Rightarrow> bool" where
  "unexpired t e = (case snd e of None \<Rightarrow> True | Some expires_at \<Rightarrow> t < expires_at)"

definition redis_get :: "world \<Rightarrow> string \<Rightarrow> redis_value option" where
  "redis_get w k =
     (case map_of (redis w) k of
        None \<Rightarrow> None
      | Some e \<Rightarrow> if unexpired (now w) e then Some (fst e) else None)"

definition redis_setex :: "string \<Rightarrow> int \<Rightarrow> redis_value \<Rightarrow> world \<Rightarrow> world" where
  "redis_setex k seconds v w =
     w\<lparr>redis := AList.update k (v, Some (now w + seconds * 1000000)) (redis w)\<rparr>"

definition redis_delete :: "string \<Rightarrow> world \<Rightarrow> world" where
  "redis_delete k w = w\<lparr>redis := AList.delete k (redis w)\<rparr>"

definition scan_iter :: "world \<Rightarrow> string \<Rightarrow> string list" where
  "scan_iter w pre =
     filter (\<lambda>k. startswith k pre \<and> redis_get w k \<noteq> None) (map fst (redis w))"

text \<open>Truth values of Python: \<^verbatim>\<open>None\<close>, the empty string and the empty \<^verbatim>\<open>dict\<close> are false.\<close>

definition truthy :: "redis_value option \<Rightarrow> bool" where
  "truthy r = (case r of None \<Rightarrow> False | Some v \<Rightarrow> v \<noteq> Text [])"

definition json_truthy :: "json \<Rightarrow> bool" where
  "json_truthy j = (j \<noteq> JNull \<and> j \<noteq> JInt 0 \<and> j \<noteq> JStr [] \<and> j \<noteq> JObj [])"

text \<open>\<^verbatim>\<open>d.get(k)\<close> on a decoded \<^verbatim>\<open>dict\<close>: JSON \<^verbatim>\<open>null\<close> stands for \<^verbatim>\<open>None\<close>.\<close>

definition json_get :: "(string \<times> json) list \<Rightarrow> string \<Rightarrow> json" where
  "json_get kv k = (case map_of kv k of None \<Rightarrow> JNull | Some v \<Rightarrow> v)"

subsection \<open>Publishing and notifying\<close>

text \<open>
  \<^verbatim>\<open>_publish_task_event\<close>: one \<^verbatim>\<open>publish\<close> on the exchange inside \<^verbatim>\<open>try\<close>; an exception
  is logged and nothing else is done.
\<close>

definition publish_task_event :: "string \<Rightarrow> event_data \<Rightarrow> world \<Rightarrow> world" where
  "publish_task_event event_type ev w =
     (let w1 = record_action (PublishTaskEvent event_type ev) w;
          ok = (case broker w1 of [] \<Rightarrow> True | b # bs \<Rightarrow> b)
      in record_action (ExchangePublish event_type ev ok) (w1\<lparr>broker := tl (broker w1)\<rparr>))"

definition send_telegram_notification :: "json \<Rightarrow> message \<Rightarrow> world \<Rightarrow> world" where
  "send_telegram_notification telegram_id msg w =
     record_action (TelegramNotification telegram_id msg) w"

text \<open>
  \<^verbatim>\<open>_get_user_telegram_session\<close>: the first stored \<^verbatim>\<open>bot_session:*\<close> value whose
  \<^verbatim>\<open>user_id\<close> is the user's. A value that is not a JSON \<^verbatim>\<open>dict\<close> raises, and the
  method returns \<^verbatim>\<open>None\<close> then.
\<close>

fun find_session :: "json \<Rightarrow> redis_value list \<Rightarrow> json option" where
  "find_session uid [] = None"
| "find_session uid (v # vs) =
     (if truthy (Some v) then
        (case v of
           Json (JObj kv) \<Rightarrow>
             if json_get kv ''user_id'' = uid then Some (JObj kv) else find_session uid vs
         | _ \<Rightarrow> None)
      else find_session uid vs)"

definition get_user_telegram_session :: "world \<Rightarrow> json \<Rightarrow> json option" where
  "get_user_telegram_session w uid =
     find_session uid (List.map_filter (redis_get w) (scan_iter w ''bot_session:''))"

text \<open>
  The part that the three notification methods share: no session, no notification; a
  session without \<^verbatim>\<open>telegram_id\<close> raises \<^verbatim>\<open>KeyError\<close>, which is caught.
\<close>

definition notify_session :: "json option \<Rightarrow> message \<Rightarrow> world \<Rightarrow> world" where
  "notify_session user_session msg w =
     (case user_session of
        None \<Rightarrow> w
      | Some s \<Rightarrow>
          if \<not> json_truthy s then w
          else (case s of
                  JObj kv \<Rightarrow>
                    (case map_of kv ''telegram_id'' of
                       None \<Rightarrow> w
                     | Some telegram_id \<Rightarrow> send_telegram_notification telegram_id msg w)
                | _ \<Rightarrow> w))"

definition send_due_soon_notification :: "TaskResponse \<Rightarrow> int \<Rightarrow> world \<Rightarrow> world" where
  "send_due_soon_notification task minutes_until_due w =
     (let w1 = record_action (SendDueSoonNotification task minutes_until_due) w
      in notify_session (get_user_telegram_session w1 (JInt (t_user_id task)))
           (DueSoonMessage task minutes_until_due) w1)"

definition send_overdue_notification :: "TaskResponse \<Rightarrow> int \<Rightarrow> world \<Rightarrow> world" where
  "send_overdue_notification task overdue_mins w =
     (let w1 = record_action (SendOverdueNotification task overdue_mins) w
      in notify_session (get_user_telegram_session w1 (JInt (t_user_id task)))
           (OverdueMessage task overdue_mins) w1)"

subsection \<open>Due-soon and overdue tasks\<close>

text \<open>The \<^verbatim>\<open>now.replace(tzinfo=...)\<close> that makes \<^verbatim>\<open>now\<close> naive or aware as the due date is.\<close>

definition align_tz :: "datetime \<Rightarrow> datetime \<Rightarrow> datetime" where
  "align_tz now_dt due_date =
     (case tzinfo due_date of
        Some tz \<Rightarrow> if tzinfo now_dt = None then Datetime (wall now_dt) (Some tz) else now_dt
      | None \<Rightarrow> if tzinfo now_dt \<noteq> None then Datetime (wall now_dt) None else now_dt)"

definition due_soon_key :: "int \<Rightarrow> string" where
  "due_soon_key task_id = ''due_soon_sent:'' @ str_int task_id"

definition overdue_key :: "int \<Rightarrow> string" where
  "overdue_key task_id = ''overdue_sent:'' @ str_int task_id"

text \<open>
  \<^verbatim>\<open>_process_due_soon_task\<close>. A task without due date raises on \<^verbatim>\<open>due_date.tzinfo\<close>; the
  exception is caught and logged.
\<close>

definition process_due_soon_task :: "TaskResponse \<Rightarrow> world \<Rightarrow> world" where
  "process_due_soon_task task w =
     (let notification_key = due_soon_key (t_id task);
          already_sent = redis_get w notification_key
      in if truthy already_sent then w
         else
           (case t_due_date task of
              None \<Rightarrow> w
            | Some due_date \<Rightarrow>
                (case dt_sub due_date (align_tz (utcnow w) due_date) of
                   Inl e \<Rightarrow> w
                 | Inr delta \<Rightarrow>
                     (let minutes_until_due = whole_minutes delta
                      in if minutes_until_due \<le> DUE_SOON_MINUTES \<and> minutes_until_due > 0 then
                           (let event = TaskDueSoonEvent (t_id task) (t_user_id task) task
                                          minutes_until_due;
                                w1 = publish_task_event ''task.due_soon'' event w;
                                w2 = send_due_soon_notification task minutes_until_due w1;
                                expire_seconds = max (minutes_until_due * 60 + 86400) 3600
                            in redis_setex notification_key expire_seconds (Text ''sent'') w2)
                         else w))))"

text \<open>
  \<^verbatim>\<open>_process_overdue_task\<close>. A stored value that is no ISO timestamp raises in
  \<^verbatim>\<open>fromisoformat\<close>, an aware one in the subtraction from \<^verbatim>\<open>utcnow()\<close>.
\<close>

definition recently_sent :: "world \<Rightarrow> redis_value option \<Rightarrow> py_error + bool" where
  "recently_sent w last_sent =
     (if truthy last_sent then
        (case last_sent of
           Some (Iso last_sent_time) \<Rightarrow>
             (case dt_sub (utcnow w) last_sent_time of
                Inl e \<Rightarrow> Inl e
              | Inr d \<Rightarrow> Inr (d < timedelta_hours 6))
         | _ \<Rightarrow> Inl ValueError)
      else Inr False)"

definition process_overdue_task :: "TaskResponse \<Rightarrow> world \<Rightarrow> world" where
  "process_overdue_task task w =
     (let notification_key = overdue_key (t_id task);
          last_sent = redis_get w notification_key
      in case recently_sent w last_sent of
           Inl e \<Rightarrow> w
         | Inr True \<Rightarrow> w
         | Inr False \<Rightarrow>
             (case t_due_date task of
                None \<Rightarrow> w
              | Some due_date \<Rightarrow>
                  (case dt_sub (align_tz (utcnow w) due_date) due_date of
                     Inl e \<Rightarrow> w
                   | Inr delta \<Rightarrow>
                       (let overdue_mins = whole_minutes delta
                        in if overdue_mins > 0 then
                             (let event = TaskOverdueEvent (t_id task) (t_user_id task) task
                                            overdue_mins;
                                  w1 = publish_task_event ''task.overdue'' event w;
                                  w2 = send_overdue_notification task overdue_mins w1
                              in redis_setex notification_key 86400 (Iso (utcnow w2)) w2)
                           else w))))"

subsection \<open>Scheduled reminders\<close>

text \<open>
  \<^verbatim>\<open>_send_scheduled_reminder\<close>. Every exception (a payload that is no \<^verbatim>\<open>dict\<close> or lacks
  \<^verbatim>\<open>task_id\<close> or \<^verbatim>\<open>user_id\<close>, a failing request, a body that is no task) is caught and
  logged.
\<close>

definition send_scheduled_reminder :: "json \<Rightarrow> world \<Rightarrow> world" where
  "send_scheduled_reminder reminder_data w =
     (let w1 = record_action (SendScheduledReminder reminder_data) w
      in case reminder_data of
           JObj kv \<Rightarrow>
             (case map_of kv ''task_id'' of
                None \<Rightarrow> w1
              | Some task_id \<Rightarrow>
                  (case map_of kv ''user_id'' of
                     None \<Rightarrow> w1
                   | Some uid \<Rightarrow>
                       (case task_api w1 task_id uid of
                          None \<Rightarrow> w1
                        | Some (status_code, body) \<Rightarrow>
                            if status_code = 200 then
                              (case body of
                                 None \<Rightarrow> w1
                               | Some task \<Rightarrow>
                                   if t_status task \<in> set [COMPLETED, CANCELLED] then w1
                                   else notify_session (get_user_telegram_session w1 uid)
                                          (ReminderMessage task
                                             (case map_of kv ''message'' of
                                                None \<Rightarrow> JStr [] | Some m \<Rightarrow> m)) w1)
                            else w1)))
         | _ \<Rightarrow> w1)"

text \<open>
  The \<^verbatim>\<open>remind_at\<close> of a stored reminder and the test \<^verbatim>\<open>remind_at <= current_time\<close>:
  an error when the value is no JSON \<^verbatim>\<open>dict\<close>, has no \<^verbatim>\<open>remind_at\<close>, when that is no
  ISO timestamp, or when one of the two times is naive and the other aware.
\<close>

definition reminder_due :: "datetime \<Rightarrow> redis_value \<Rightarrow> py_error + (json \<times> bool)" where
  "reminder_due current_time reminder_data =
     (case reminder_data of
        Json (JObj kv) \<Rightarrow>
          (case map_of kv ''remind_at'' of
             None \<Rightarrow> Inl KeyError
           | Some (JTime remind_at) \<Rightarrow>
               (case dt_le remind_at current_time of
                  Inl e \<Rightarrow> Inl e
                | Inr b \<Rightarrow> Inr (JObj kv, b))
           | Some (JStr s) \<Rightarrow> Inl ValueError
           | Some other \<Rightarrow> Inl TypeError)
      | Json other \<Rightarrow> Inl TypeError
      | other \<Rightarrow> Inl ValueError)"

text \<open>One turn of the loop over the scanned keys, with its own \<^verbatim>\<open>try\<close>.\<close>

definition process_reminder_key :: "datetime \<Rightarrow> string \<Rightarrow> world \<Rightarrow> world" where
  "process_reminder_key current_time k w =
     (let reminder_data = redis_get w k
      in if truthy reminder_data then
           (case reminder_data of
              None \<Rightarrow> w
            | Some v \<Rightarrow>
                (case reminder_due current_time v of
                   Inl e \<Rightarrow> w
                 | Inr (reminder, due) \<Rightarrow>
                     if due then redis_delete k (send_scheduled_reminder reminder w) else w))
         else w)"

definition process_scheduled_reminders :: "datetime \<Rightarrow> world \<Rightarrow> world" where
  "process_scheduled_reminders check_time w =
     foldl (\<lambda>w' k. process_reminder_key check_time k w') w (scan_iter w ''reminder:'')"

subsection \<open>Runs of the worker\<close>

text \<open>
  A run: time passes between the calls (\<open>Wait d\<close>, \<open>d\<close> microseconds), and each call is
  one of the three processing methods. The hourly clean-up (it deletes
  \<^verbatim>\<open>due_soon_sent:*\<close> keys that have no expiry; the worker sets none) and the custom
  reminders (they write nothing to Redis) are not among the steps.
\<close>

datatype step =
    Wait nat
  | DueSoon TaskResponse
  | Overdue TaskResponse
  | ScheduledReminders datetime

fun do_step :: "step \<Rightarrow> world \<Rightarrow> world" where
  "do_step (Wait d) w = w\<lparr>now := now w + int d\<rparr>"
| "do_step (DueSoon task) w = process_due_soon_task task w"
| "do_step (Overdue task) w = process_overdue_task task w"
| "do_step (ScheduledReminders check_time) w = process_scheduled_reminders check_time w"

definition run :: "step list \<Rightarrow> world \<Rightarrow> world" where
  "run steps w = foldl (\<lambda>w' s. do_step s w') w steps"

subsection \<open>What the worker's properties are stated with\<close>

text \<open>
  \<open>new_actions w w'\<close> is what a call or a run added to the history between \<open>w\<close> and
  \<open>w'\<close>; \<open>logged w as\<close> is \<open>w\<close> with the actions \<open>as\<close> added at its time.
  \<open>notification_of\<close> is the request to the bot service that a found session leads to,
  \<open>due_soon_actions\<close> and \<open>overdue_actions\<close> list what the worker does for a task inside
  its window, \<open>fetched_task\<close> is the task that \<^verbatim>\<open>_send_scheduled_reminder\<close> gets for a
  payload, \<open>stored_reminder\<close> a \<^verbatim>\<open>reminder:*\<close> entry that holds a payload with a
  \<^verbatim>\<open>remind_at\<close> timestamp, and \<open>due_reminder\<close> the payload of a key whose reminder is
  due. \<open>overdue_times i h\<close> are the times in a history at which an overdue notification
  of task \<open>i\<close> was sent, and \<open>spaced\<close> says that any two of them are six hours apart.
  The remaining definitions are sample tasks, reminders and surroundings.
\<close>

definition is_exchange_publish :: "action \<Rightarrow> bool" where
  "is_exchange_publish a = (case a of ExchangePublish k e ok \<Rightarrow> True | _ \<Rightarrow> False)"

definition new_actions :: "world \<Rightarrow> world \<Rightarrow> action list" where
  "new_actions w w' = map snd (drop (length (history w)) (history w'))"

definition task0 :: TaskResponse where
  "task0 = \<lparr>t_title = ''report'', t_description = None, t_status = TODO, t_priority = MEDIUM,
            t_due_date = Some (Datetime 1800000000 None), t_id = 5, t_user_id = 7,
            t_created_at = Datetime 0 None, t_updated_at = Datetime 0 None,
            t_completed_at = None\<rparr>"

definition broker_fails_once :: world where
  "broker_fails_once =
     \<lparr>now = 0, redis = [], broker = [False, True, True],
      task_api = (\<lambda>task_id uid. None), history = []\<rparr>"

definition notification_of :: "json option \<Rightarrow> message \<Rightarrow> action list" where
  "notification_of user_session msg =
     (case user_session of
        Some (JObj kv) \<Rightarrow>
          (if kv = [] then []
           else (case map_of kv ''telegram_id'' of
                   None \<Rightarrow> []
                 | Some telegram_id \<Rightarrow> [TelegramNotification telegram_id msg]))
      | _ \<Rightarrow> [])"

definition fetched_task :: "world \<Rightarrow> json \<Rightarrow> TaskResponse option" where
  "fetched_task w reminder_data =
     (case reminder_data of
        JObj kv \<Rightarrow>
          (case map_of kv ''task_id'' of
             None \<Rightarrow> None
           | Some task_id \<Rightarrow>
               (case map_of kv ''user_id'' of
                  None \<Rightarrow> None
                | Some uid \<Rightarrow>
                    (case task_api w task_id uid of
                       None \<Rightarrow> None
                     | Some (status_code, body) \<Rightarrow> if status_code = 200 then body else None)))
      | _ \<Rightarrow> None)"

definition logged :: "world \<Rightarrow> action list \<Rightarrow> world" where
  "logged w as = w\<lparr>history := history w @ map (Pair (now w)) as\<rparr>"

definition scheduled_notification :: "world \<Rightarrow> json \<Rightarrow> action list" where
  "scheduled_notification w r =
     (case fetched_task w r of
        None \<Rightarrow> []
      | Some task \<Rightarrow>
          if t_status task = COMPLETED \<or> t_status task = CANCELLED then []
          else (case r of
                  JObj kv \<Rightarrow>
                    notification_of (get_user_telegram_session w (json_get kv ''user_id''))
                      (ReminderMessage task
                         (case map_of kv ''message'' of None \<Rightarrow> JStr [] | Some m \<Rightarrow> m))
                | _ \<Rightarrow> []))"

definition minutes_until_due :: "world \<Rightarrow> datetime \<Rightarrow> int" where
  "minutes_until_due w due_date = whole_minutes (wall due_date - now w)"

definition minutes_overdue :: "world \<Rightarrow> datetime \<Rightarrow> int" where
  "minutes_overdue w due_date = whole_minutes (now w - wall due_date)"

definition next_publish_ok :: "world \<Rightarrow> bool" where
  "next_publish_ok w = (case broker w of [] \<Rightarrow> True | b # bs \<Rightarrow> b)"

definition due_soon_actions :: "world \<Rightarrow> TaskResponse \<Rightarrow> int \<Rightarrow> action list" where
  "due_soon_actions w task m =
     [PublishTaskEvent ''task.due_soon'' (TaskDueSoonEvent (t_id task) (t_user_id task) task m),
      ExchangePublish ''task.due_soon'' (TaskDueSoonEvent (t_id task) (t_user_id task) task m)
        (next_publish_ok w),
      SendDueSoonNotification task m]
     @ notification_of (get_user_telegram_session w (JInt (t_user_id task)))
         (DueSoonMessage task m)"

definition overdue_actions :: "world \<Rightarrow> TaskResponse \<Rightarrow> int \<Rightarrow> action list" where
  "overdue_actions w task m =
     [PublishTaskEvent ''task.overdue'' (TaskOverdueEvent (t_id task) (t_user_id task) task m),
      ExchangePublish ''task.overdue'' (TaskOverdueEvent (t_id task) (t_user_id task) task m)
        (next_publish_ok w),
      SendOverdueNotification task m]
     @ notification_of (get_user_telegram_session w (JInt (t_user_id task)))
         (OverdueMessage task m)"

definition digit_val :: "char \<Rightarrow> nat" where
  "digit_val c = of_char c - 48"

definition nat_of_digits :: "string \<Rightarrow> nat" where
  "nat_of_digits s = foldl (\<lambda>n c. 10 * n + digit_val c) 0 s"

definition due_reminder :: "datetime \<Rightarrow> world \<Rightarrow> string \<Rightarrow> json option" where
  "due_reminder current_time w k =
     (case redis_get w k of
        None \<Rightarrow> None
      | Some v \<Rightarrow>
          if v = Text [] then None
          else (case reminder_due current_time v of
                  Inl e \<Rightarrow> None
                | Inr (reminder, due) \<Rightarrow> if due then Some reminder else None))"

definition sent_reminders :: "action list \<Rightarrow> json list" where
  "sent_reminders as = concat (map (\<lambda>a. case a of SendScheduledReminder r \<Rightarrow> [r] | _ \<Rightarrow> []) as)"

definition reminder_action :: "action \<Rightarrow> bool" where
  "reminder_action a =
     (case a of SendScheduledReminder r \<Rightarrow> True | TelegramNotification t m \<Rightarrow> True | _ \<Rightarrow> False)"


definition due_soon_sent_to :: "int \<Rightarrow> action \<Rightarrow> bool" where
  "due_soon_sent_to i a = (case a of SendDueSoonNotification task m \<Rightarrow> t_id task = i | _ \<Rightarrow> False)"

definition overdue_sent_to :: "int \<Rightarrow> action \<Rightarrow> bool" where
  "overdue_sent_to i a = (case a of SendOverdueNotification task m \<Rightarrow> t_id task = i | _ \<Rightarrow> False)"

definition overdue_times :: "int \<Rightarrow> (int \<times> action) list \<Rightarrow> int list" where
  "overdue_times i h = map fst (filter (\<lambda>e. overdue_sent_to i (snd e)) h)"

definition spaced :: "int list \<Rightarrow> bool" where
  "spaced ts = sorted_wrt (\<lambda>a b. a + timedelta_hours 6 \<le> b) ts"

definition overdue_inv :: "int \<Rightarrow> world \<Rightarrow> bool" where
  "overdue_inv i w =
     (spaced (overdue_times i (history w))
      \<and> (overdue_times i (history w) \<noteq> [] \<longrightarrow>
           (\<exists>s. map_of (redis w) (overdue_key i) =
                  Some (Iso (Datetime s None), Some (s + 86400 * 1000000))
                \<and> s \<le> now w \<and> (\<forall>t\<in>set (overdue_times i (history w)). t \<le> s))))"

definition session_world :: world where
  "session_world =
     \<lparr>now = 0,
      redis = [(''bot_session:abc'',
                Json (JObj [(''user_id'', JInt 7), (''telegram_id'', JInt 99)]), None)],
      broker = [],
      task_api = (\<lambda>task_id uid. None),
      history = []\<rparr>"

definition sent_world :: world where
  "sent_world =
     session_world\<lparr>redis := (''due_soon_sent:5'', Text ''sent'', None) # redis session_world\<rparr>"

definition overdue_task :: TaskResponse where
  "overdue_task = task0\<lparr>t_due_date := Some (Datetime (- 7200000000) None)\<rparr>"

definition done_task :: TaskResponse where
  "done_task = task0\<lparr>t_status := COMPLETED\<rparr>"

definition reminder5 :: json where
  "reminder5 = JObj [(''task_id'', JInt 5), (''user_id'', JInt 7),
                     (''remind_at'', JTime (Datetime 100 None)), (''message'', JNull)]"

definition reminder6 :: json where
  "reminder6 = JObj [(''task_id'', JInt 6), (''user_id'', JInt 7),
                     (''remind_at'', JTime (Datetime 300 None)), (''message'', JNull)]"

definition reminders_world :: world where
  "reminders_world =
     session_world
       \<lparr>redis := [(''reminder:5:a'', Json reminder5, None), (''reminder:6:b'', Json reminder6, None)]
                  @ redis session_world,
        task_api := (\<lambda>task_id uid. if task_id = JInt 5 then Some (200, Some done_task) else None)\<rparr>"

definition later_task :: TaskResponse where
  "later_task = task0\<lparr>t_due_date := Some (Datetime 7200000000 None)\<rparr>"

definition undated_task :: TaskResponse where
  "undated_task = task0\<lparr>t_due_date := None\<rparr>"

section \<open>Properties of the statistics\<close>

text \<open>
  C9. The claim: for every list of activities the statistics satisfy
  \<open>completed_tasks + cancelled_tasks \<le> total_tasks\<close> and \<open>0 \<le> completion_rate \<le> 1\<close>, so
  the \<^verbatim>\<open>todo\<close> entry of \<open>tasks_by_status\<close> is never negative. The code counts completion
  activities, not completed tasks: on two completion activities of one task it returns
  one task, two completed tasks, a completion rate of 2 and a \<^verbatim>\<open>todo\<close> count of -1.
\<close>

theorem C9_completed_twice:
  "\<exists>s. calculate_productivity_stats 7 completed_twice (Datetime 0 None) (Datetime 1 None) = Inr s
     \<and> total_tasks s = 1 \<and> completed_tasks s = 2 \<and> cancelled_tasks s = 0
     \<and> completion_rate s = 2 \<and> map_of (tasks_by_status s) ''todo'' = Some (- 1)"
  by (simp add: calculate_productivity_stats_def completed_twice_def group_by_task_def
      counters0_def activity_step_def final_stats_def)

subsection \<open>Grouping and the two loops\<close>

lemma group_snoc: "group_by_task (xs @ [a]) = append_activity a (group_by_task xs)"
  by (simp add: group_by_task_def)

lemma set_task_ids: "set (task_ids xs) = act_task_id ` set xs"
  by (simp add: task_ids_def)

lemma distinct_task_ids: "distinct (task_ids xs)"
  by (simp add: task_ids_def)

lemma task_ids_snoc:
  "task_ids (xs @ [a]) =
     (if act_task_id a \<in> set (task_ids xs) then task_ids xs else task_ids xs @ [act_task_id a])"
  by (simp add: task_ids_def)

lemma append_activity_map:
  "distinct ts \<Longrightarrow>
   append_activity a (map (\<lambda>t. (t, f t)) ts) =
     (if act_task_id a \<in> set ts
      then map (\<lambda>t. (t, if t = act_task_id a then f t @ [a] else f t)) ts
      else map (\<lambda>t. (t, f t)) ts @ [(act_task_id a, [a])])"
  by (induction ts) auto

lemma group_by_task_eq:
  "group_by_task acts = map (\<lambda>t. (t, activities_of t acts)) (task_ids acts)"
proof (induction acts rule: rev_induct)
  case Nil
  show ?case by (simp add: group_by_task_def task_ids_def)
next
  case (snoc a xs)
  show ?case
  proof (cases "act_task_id a \<in> set (task_ids xs)")
    case True
    then show ?thesis
      using snoc distinct_task_ids[of xs]
      by (simp add: group_snoc task_ids_snoc append_activity_map activities_of_def)
  next
    case False
    then have "\<forall>x\<in>set xs. act_task_id x \<noteq> act_task_id a"
      by (metis set_task_ids imageI)
    then have "activities_of (act_task_id a) xs = []"
      by (simp add: activities_of_def filter_empty_conv)
    with False show ?thesis
      using snoc distinct_task_ids[of xs]
      by (auto simp add: group_snoc task_ids_snoc append_activity_map activities_of_def)
  qed
qed

lemma mset_append_activity:
  "mset (concat (map snd (append_activity a m))) = add_mset a (mset (concat (map snd m)))"
  by (induction m) auto

lemma mset_group_by_task: "mset (concat (map snd (group_by_task acts))) = mset acts"
  by (induction acts rule: rev_induct) (simp_all add: group_by_task_def mset_append_activity)

lemma latest_creation_snoc: "latest_creation (p @ [a]) = (if is_creation a then Some a else latest_creation p)"
  by (simp add: latest_creation_def last_creation_before_def)

lemma latest_creation_prefix: "last_creation_before (p @ s) (length p) = latest_creation p"
  by (simp add: latest_creation_def last_creation_before_def)

lemma task_durations_measured: "task_durations l = concat (map (measured l) [0..<length l])"
  by (simp add: task_durations_def measured_def[abs_def])

lemma activity_step_Inr:
  assumes "activity_step a (created, fp, c) = Inr (created', fp', c')"
    and "created_agrees created p"
  shows "created_agrees created' (p @ [a])"
    and "n_total_tasks c' = n_total_tasks c"
    and "n_completed_tasks c' = n_completed_tasks c + (if is_completion a then 1 else 0)"
    and "completion_hours c' = completion_hours c @ (if is_completion a then [completion_hour a] else [])"
    and "completion_times c' = completion_times c @ measured (p @ a # s) (length p)"
    and "priority_counts c' = priority_counts c"
  using assms
  by (auto simp: activity_step_def created_agrees_def latest_creation_snoc is_creation_def is_completion_def
      measured_def latest_creation_prefix hours_between_def completion_hour_def Let_def
      split: if_splits option.splits sum.splits) metis+

lemma task_loop_Inr:
  "task_loop s (created, fp, c) = Inr (created', fp', c') \<Longrightarrow> created_agrees created p \<Longrightarrow>
     n_total_tasks c' = n_total_tasks c
   \<and> n_completed_tasks c' = n_completed_tasks c + int (length (filter is_completion s))
   \<and> completion_hours c' = completion_hours c @ map completion_hour (filter is_completion s)
   \<and> completion_times c' =
       completion_times c @ concat (map (measured (p @ s)) [length p..<length p + length s])
   \<and> priority_counts c' = priority_counts c"
proof (induction s arbitrary: created fp c p)
  case Nil
  then show ?case by simp
next
  case (Cons a s)
  from Cons.prems(1) obtain created1 fp1 c1 where
    step: "activity_step a (created, fp, c) = Inr (created1, fp1, c1)"
    and rest: "task_loop s (created1, fp1, c1) = Inr (created', fp', c')"
    by (auto split: sum.splits)
  note st = activity_step_Inr[OF step Cons.prems(2)]
  have ih: "n_total_tasks c' = n_total_tasks c1
   \<and> n_completed_tasks c' = n_completed_tasks c1 + int (length (filter is_completion s))
   \<and> completion_hours c' = completion_hours c1 @ map completion_hour (filter is_completion s)
   \<and> completion_times c' =
       completion_times c1 @ concat (map (measured ((p @ [a]) @ s)) [length (p @ [a])..<length (p @ [a]) + length s])
   \<and> priority_counts c' = priority_counts c1"
    by (rule Cons.IH[OF rest st(1)])
  have eq: "concat (map (measured (p @ a # s)) [length p..<length p + length (a # s)]) =
      measured (p @ a # s) (length p) @
      concat (map (measured ((p @ [a]) @ s)) [length (p @ [a])..<length (p @ [a]) + length s])"
    by (subst upt_rec) simp
  show ?case
    unfolding eq using ih st(2-6) by simp
qed

lemma created_agrees_Nil: "created_agrees None []"
  by (simp add: created_agrees_def latest_creation_def last_creation_before_def)

lemma tasks_loop_Inr:
  "tasks_loop gs c = Inr c' \<Longrightarrow>
     n_total_tasks c' = n_total_tasks c + int (length gs)
   \<and> n_completed_tasks c' =
       n_completed_tasks c + int (length (filter is_completion (concat (map snd gs))))
   \<and> completion_hours c' =
       completion_hours c @ map completion_hour (filter is_completion (concat (map snd gs)))
   \<and> completion_times c' = completion_times c @ concat (map (\<lambda>g. task_durations (snd g)) gs)"
proof (induction gs arbitrary: c)
  case Nil
  then show ?case by simp
next
  case (Cons g gs)
  obtain t l where g: "g = (t, l)" by (cases g)
  from Cons.prems g obtain created fp c1 where
    inner: "task_loop l (None, ''medium'', c\<lparr>n_total_tasks := n_total_tasks c + 1\<rparr>) = Inr (created, fp, c1)"
    and rest: "tasks_loop gs (c1\<lparr>priority_counts := incr_count fp (priority_counts c1)\<rparr>) = Inr c'"
    by (auto split: sum.splits)
  note tl = task_loop_Inr[OF inner created_agrees_Nil]
  note ih = Cons.IH[OF rest]
  show ?case
    using tl ih by (simp add: g task_durations_measured)
qed

subsection \<open>Counting completions by hour\<close>

lemma length_filter_mset_eq:
  "mset xs = mset ys \<Longrightarrow> length (filter P xs) = length (filter P ys)"
  by (metis mset_filter size_mset)

lemma count_list_map_filter:
  "count_list (map f (filter Q xs)) h = length (filter (\<lambda>a. Q a \<and> f a = h) xs)"
  by (induction xs) auto

lemma map_of_incr_count: "map_of (incr_count k m) = (map_of m)(k \<mapsto> count_of m k + 1)"
  by (induction m) (auto simp: count_of_def fun_eq_iff)

lemma keys_incr_count:
  "map fst (incr_count k m) = (if k \<in> set (map fst m) then map fst m else map fst m @ [k])"
  by (induction m) (fastforce simp: image_iff)+

lemma hour_counts_snoc: "hour_counts (hs @ [h]) = incr_count h (hour_counts hs)"
  by (simp add: hour_counts_def)

lemma keys_hour_counts: "set (map fst (hour_counts hs)) = set hs"
proof (induction hs rule: rev_induct)
  case Nil
  show ?case by (simp add: hour_counts_def)
next
  case (snoc x xs)
  then show ?case
    unfolding hour_counts_snoc keys_incr_count by auto
qed

lemma count_of_hour_counts: "count_of (hour_counts hs) h = int (count_list hs h)"
proof (induction hs rule: rev_induct)
  case Nil
  show ?case by (simp add: hour_counts_def count_of_def)
next
  case (snoc x xs)
  then show ?case
    by (auto simp: hour_counts_snoc count_of_def map_of_incr_count)
qed

lemma foldl_max_key:
  "foldl (\<lambda>best y. if f best < f y then y else best) b ys \<in> set (b # ys)
   \<and> (\<forall>y\<in>set (b # ys). (f y :: int) \<le> f (foldl (\<lambda>best y. if f best < f y then y else best) b ys))"
proof (induction ys arbitrary: b)
  case Nil
  show ?case by simp
next
  case (Cons y ys)
  show ?case
    using Cons.IH[of "if f b < f y then y else b"] by (auto split: if_splits)
qed

lemma py_max_key_Some:
  "py_max_key f xs = Some x \<Longrightarrow> x \<in> set xs \<and> (\<forall>y\<in>set xs. f y \<le> f x)"
  using foldl_max_key[of f] by (auto simp: py_max_key_def split: list.splits)

lemma py_max_key_None: "py_max_key f xs = None \<longleftrightarrow> xs = []"
  by (simp add: py_max_key_def split: list.splits)

lemma activity_step_returns:
  "naive_timestamp a \<Longrightarrow> naive_opt created \<Longrightarrow>
   \<exists>created' fp' c'. activity_step a (created, fp, c) = Inr (created', fp', c') \<and> naive_opt created'"
  by (auto simp: activity_step_def naive_timestamp_def naive_opt_def dt_sub_def Let_def
      split: option.splits)

lemma task_loop_returns:
  "\<forall>a\<in>set l. naive_timestamp a \<Longrightarrow> naive_opt created \<Longrightarrow>
   \<exists>r. task_loop l (created, fp, c) = Inr r"
proof (induction l arbitrary: created fp c)
  case Nil
  show ?case by simp
next
  case (Cons a l)
  from Cons.prems obtain created' fp' c' where
    "activity_step a (created, fp, c) = Inr (created', fp', c')" "naive_opt created'"
    using activity_step_returns[of a created fp c] by auto
  with Cons show ?case by simp
qed

lemma tasks_loop_returns:
  "\<forall>g\<in>set gs. \<forall>a\<in>set (snd g). naive_timestamp a \<Longrightarrow> \<exists>c'. tasks_loop gs c = Inr c'"
proof (induction gs arbitrary: c)
  case Nil
  show ?case by simp
next
  case (Cons g gs)
  obtain t l where g: "g = (t, l)" by (cases g)
  with Cons.prems have "\<forall>a\<in>set l. naive_timestamp a" by simp
  then obtain r where "task_loop l (None, ''medium'', c\<lparr>n_total_tasks := n_total_tasks c + 1\<rparr>) = Inr r"
    using task_loop_returns[of l None "''medium''" "c\<lparr>n_total_tasks := n_total_tasks c + 1\<rparr>"]
    by (auto simp: naive_opt_def)
  moreover obtain created fp c1 where "r = (created, fp, c1)" by (cases r)
  moreover have "\<exists>c'. tasks_loop gs (c1\<lparr>priority_counts := incr_count fp (priority_counts c1)\<rparr>) = Inr c'"
    using Cons.prems by (intro Cons.IH) simp
  ultimately show ?case by (simp add: g)
qed

lemma calculate_returns:
  assumes "\<forall>a\<in>set acts. naive_timestamp a"
  shows "\<exists>s. calculate_productivity_stats uid acts sd ed = Inr s"
proof -
  have "set (concat (map snd (group_by_task acts))) = set acts"
    using mset_group_by_task[of acts] by (rule mset_eq_setD)
  with assms have "\<forall>g\<in>set (group_by_task acts). \<forall>a\<in>set (snd g). naive_timestamp a"
    by auto
  then obtain c where "tasks_loop (group_by_task acts) counters0 = Inr c"
    using tasks_loop_returns by blast
  then show ?thesis by (simp add: calculate_productivity_stats_def)
qed

lemma calculate_Inr:
  assumes "calculate_productivity_stats uid acts sd ed = Inr s"
  shows "total_tasks s = int (length (task_ids acts))"
    and "completed_tasks s = int (length (filter is_completion acts))"
    and "completion_rate s =
          (if total_tasks s > 0 then of_int (completed_tasks s) / of_int (total_tasks s) else 0)"
    and "average_completion_time_hours s =
          (if all_durations acts = [] then None else Some (mean (all_durations acts)))"
    and "most_productive_hour s = None \<longleftrightarrow> filter is_completion acts = []"
    and "most_productive_hour s = Some h \<Longrightarrow>
          0 < completions_at acts h \<and> (\<forall>h'. completions_at acts h' \<le> completions_at acts h)"
proof -
  from assms obtain c where
    loop: "tasks_loop (group_by_task acts) counters0 = Inr c"
    and s: "s = final_stats uid sd ed c"
    by (auto simp: calculate_productivity_stats_def split: sum.splits)
  note inv = tasks_loop_Inr[OF loop]
  let ?G = "concat (map snd (group_by_task acts))"
  have perm: "mset ?G = mset acts" by (rule mset_group_by_task)
  have total: "n_total_tasks c = int (length (task_ids acts))"
    using inv by (simp add: counters0_def group_by_task_eq)
  have completed: "n_completed_tasks c = int (length (filter is_completion acts))"
    using inv length_filter_mset_eq[OF perm, of is_completion] by (simp add: counters0_def)
  have times: "completion_times c = all_durations acts"
    using inv by (simp add: counters0_def group_by_task_eq all_durations_def comp_def)
  have hours: "completion_hours c = map completion_hour (filter is_completion ?G)"
    using inv by (simp add: counters0_def)
  have count: "count_list (completion_hours c) k = completions_at acts k" for k
    unfolding hours count_list_map_filter completions_at_def
    by (rule length_filter_mset_eq[OF perm])
  have empty: "completion_hours c = [] \<longleftrightarrow> filter is_completion acts = []"
    using length_filter_mset_eq[OF perm, of is_completion] unfolding hours
    by (metis length_0_conv map_is_Nil_conv)
  show "total_tasks s = int (length (task_ids acts))"
    by (simp add: s final_stats_def total)
  show "completed_tasks s = int (length (filter is_completion acts))"
    by (simp add: s final_stats_def completed)
  show "completion_rate s =
          (if total_tasks s > 0 then of_int (completed_tasks s) / of_int (total_tasks s) else 0)"
    by (simp add: s final_stats_def)
  show "average_completion_time_hours s =
          (if all_durations acts = [] then None else Some (mean (all_durations acts)))"
    by (simp add: s final_stats_def times)
  have keys_ne: "map fst (hour_counts (completion_hours c)) \<noteq> []" if "completion_hours c \<noteq> []"
    using that keys_hour_counts[of "completion_hours c"] by (metis set_empty)
  show "most_productive_hour s = None \<longleftrightarrow> filter is_completion acts = []"
    using keys_ne empty by (auto simp: s final_stats_def Let_def py_max_key_None)
  show "0 < completions_at acts h \<and> (\<forall>h'. completions_at acts h' \<le> completions_at acts h)"
    if "most_productive_hour s = Some h"
  proof -
    let ?H = "completion_hours c"
    from that have mk: "py_max_key (count_of (hour_counts ?H)) (map fst (hour_counts ?H)) = Some h"
      by (auto simp: s final_stats_def Let_def split: if_splits)
    have hin: "h \<in> set ?H"
      and best: "\<forall>y\<in>set ?H. count_of (hour_counts ?H) y \<le> count_of (hour_counts ?H) h"
      using py_max_key_Some[OF mk] unfolding keys_hour_counts by blast+
    have pos: "0 < count_list ?H h"
      using hin count_list_0_iff[of ?H h] by auto
    have "count_list ?H h' \<le> count_list ?H h" for h'
    proof (cases "h' \<in> set ?H")
      case True
      with best show ?thesis by (simp add: count_of_hour_counts)
    next
      case False
      then show ?thesis by (simp add: count_list_0_iff)
    qed
    with pos show ?thesis by (simp add: count)
  qed
qed

text \<open>
  The claim C5 as it is worded fails where a task's creation activity stands after its
  completion activity in the list: the completion has a creation of the same task, ten
  hours earlier by the timestamps, so the worded average is 10, and the code returns
  \<^verbatim>\<open>None\<close>, because \<^verbatim>\<open>created\<close> is still unset when the completion is read.
\<close>

theorem C5_creation_listed_last:
  "map_sum id average_completion_time_hours
     (calculate_productivity_stats 7 creation_listed_last (Datetime 0 None) (Datetime 1 None))
     = Inr None
   \<and> claimed_average creation_listed_last = Some 10"
  by (simp add: calculate_productivity_stats_def creation_listed_last_def group_by_task_def
      counters0_def activity_step_def final_stats_def claimed_average_def claimed_durations_def
      task_ids_def activities_of_def is_creation_def is_completion_def hours_between_def
      dt_sub_def mean_def)

text \<open>
  C5, amended. Whenever \<^verbatim>\<open>_calculate_productivity_stats\<close> returns (it does on every list
  whose timestamps are naive ISO timestamps; it raises on a creation or completion whose
  timestamp does not parse and on a naive timestamp met with an aware one):
  \<open>total_tasks\<close> is the number of distinct tasks and \<open>completed_tasks\<close> the number of
  completion activities; \<open>completion_rate\<close> is \<open>completed_tasks / total_tasks\<close> when
  \<open>total_tasks > 0\<close> and 0 otherwise; \<open>average_completion_time_hours\<close> is the arithmetic
  mean, over the completion activities that a creation activity of the same task precedes
  in the list, of the hours from the last such creation to the completion, and \<^verbatim>\<open>None\<close>
  when there is no such completion activity; \<open>most_productive_hour\<close> is \<^verbatim>\<open>None\<close> exactly
  when there is no completion activity, and otherwise an hour of the day at which the
  number of completion activities is greatest.
\<close>

theorem C5_statistics:
  "((\<forall>a\<in>set acts. naive_timestamp a) \<longrightarrow>
      (\<exists>s'. calculate_productivity_stats uid acts sd ed = Inr s'))
   \<and> (calculate_productivity_stats uid acts sd ed = Inr s \<longrightarrow>
        total_tasks s = int (length (task_ids acts))
      \<and> completed_tasks s = int (length (filter is_completion acts))
      \<and> completion_rate s =
          (if total_tasks s > 0 then of_int (completed_tasks s) / of_int (total_tasks s) else 0)
      \<and> average_completion_time_hours s =
          (if all_durations acts = [] then None else Some (mean (all_durations acts)))
      \<and> (most_productive_hour s = None \<longleftrightarrow> filter is_completion acts = [])
      \<and> (\<forall>h. most_productive_hour s = Some h \<longrightarrow>
            0 < completions_at acts h
          \<and> (\<forall>h'. completions_at acts h' \<le> completions_at acts h)))"
  using calculate_returns[of acts uid sd ed] calculate_Inr[of uid acts sd ed s]
  by blast

lemma two_tasks_durations: "all_durations two_tasks = [2]"
  by code_simp

theorem C5_statistics_witness:
  "\<exists>s. calculate_productivity_stats 7 two_tasks (Datetime 0 None) (Datetime 1 None) = Inr s
     \<and> total_tasks s = 2 \<and> completed_tasks s = 2 \<and> completion_rate s = 1
     \<and> average_completion_time_hours s = Some 2
     \<and> most_productive_hour s \<noteq> None"
proof -
  have wf: "\<forall>a\<in>set two_tasks. naive_timestamp a"
    by (simp add: two_tasks_def naive_timestamp_def)
  note inst = C5_statistics[of two_tasks 7 "Datetime 0 None" "Datetime 1 None"]
  from inst wf obtain s where
    s: "calculate_productivity_stats 7 two_tasks (Datetime 0 None) (Datetime 1 None) = Inr s"
    by blast
  have ids: "task_ids two_tasks = [1, 2]"
    by (simp add: task_ids_def two_tasks_def)
  have compl: "length (filter is_completion two_tasks) = 2"
    by (simp add: two_tasks_def is_completion_def)
  from inst[of s] s have
    "total_tasks s = int (length (task_ids two_tasks))"
    "completed_tasks s = int (length (filter is_completion two_tasks))"
    "completion_rate s =
          (if total_tasks s > 0 then of_int (completed_tasks s) / of_int (total_tasks s) else 0)"
    "average_completion_time_hours s =
          (if all_durations two_tasks = [] then None else Some (mean (all_durations two_tasks)))"
    "most_productive_hour s = None \<longleftrightarrow> filter is_completion two_tasks = []"
    by blast+
  with s show ?thesis
    by (intro exI[of _ s]) (simp add: ids compl two_tasks_durations mean_def, simp add: two_tasks_def is_completion_def)
qed

section \<open>The minimum of data for the analytics of a user\<close>



section \<open>Properties of the naming lint\<close>

lemma nginx_flagged_iff:
  "(f, n) \<in> set (nginx_upstreams f ns) \<longleftrightarrow>
     n \<in> set ns \<and> n \<notin> set INFRASTRUCTURE_SERVICES \<and> \<not> endswith n ''_management''
     \<and> \<not> re_match VALID_SERVICE_PATTERN n"
  by (auto simp: nginx_upstreams_def)

lemma makefile_flagged_iff:
  "(''Makefile'', n) \<in> set (makefile_group g) \<longleftrightarrow>
     n \<in> set (map strip (split CHR '','' g)) \<and> n \<noteq> [] \<and> \<not> re_match VALID_SERVICE_PATTERN n"
  by (auto simp: makefile_group_def)

lemma compose_flagged:
  "(f, n) \<in> set (compose_lines f b ls) \<Longrightarrow>
     n \<notin> set INFRASTRUCTURE_SERVICES \<and> \<not> re_match VALID_SERVICE_PATTERN n"
  by (induction ls arbitrary: b) (auto simp: Let_def split: if_splits option.splits)

lemma main_exit_code:
  "(main files = 1 \<longleftrightarrow> all_errors files \<noteq> []) \<and> (main files = 0 \<longleftrightarrow> all_errors files = [])"
  by (simp add: main_def)

text \<open>
  C6. The claim exempts the names of \<open>INFRASTRUCTURE_SERVICES\<close> in all three checks. The
  docker-compose and the nginx check skip them; \<^verbatim>\<open>check_makefile\<close> does not: a Makefile
  that creates \<^verbatim>\<open>services/{redis}\<close> is reported and \<^verbatim>\<open>main\<close> returns 1, while the same
  name as a docker-compose service and as an nginx upstream passes and \<^verbatim>\<open>main\<close>
  returns 0.
\<close>

theorem C6_makefile_infrastructure:
  "''redis'' \<in> set INFRASTRUCTURE_SERVICES
   \<and> check_makefile redis_in_makefile = [(''Makefile'', ''redis'')]
   \<and> main redis_in_makefile = 1
   \<and> check_docker_compose_files redis_in_compose = []
   \<and> check_nginx_configs redis_in_compose = []
   \<and> main redis_in_compose = 0"
  by code_simp

section \<open>Properties of the reminder worker\<close>

subsection \<open>Publishing a task event\<close>

text \<open>
  The claim C1 as it is worded fails: when the broker refuses the first \<^verbatim>\<open>publish\<close> and
  would take the next ones, \<^verbatim>\<open>_publish_task_event\<close> makes the one refused attempt and
  returns; the two outcomes that a second and a third attempt would have met are left
  unused.
\<close>

theorem C1_no_second_attempt:
  "new_actions broker_fails_once
     (publish_task_event ''task.due_soon'' (TaskDueSoonEvent 5 7 task0 30) broker_fails_once)
     = [PublishTaskEvent ''task.due_soon'' (TaskDueSoonEvent 5 7 task0 30),
        ExchangePublish ''task.due_soon'' (TaskDueSoonEvent 5 7 task0 30) False]
   \<and> broker (publish_task_event ''task.due_soon'' (TaskDueSoonEvent 5 7 task0 30) broker_fails_once)
     = [True, True]"
  by (simp add: publish_task_event_def broker_fails_once_def record_action_def new_actions_def Let_def)

text \<open>
  C1, amended. \<^verbatim>\<open>_publish_task_event\<close> makes exactly one \<^verbatim>\<open>publish\<close> attempt in every
  call, whatever its outcome: a failure is logged and the event is given up
  (\<open>REMINDER_RETRY_ATTEMPTS\<close> and \<open>REMINDER_RETRY_DELAY\<close> are not used). Redis and the clock
  are left as they were.
\<close>

theorem C1_single_attempt:
  "new_actions w (publish_task_event event_type ev w)
     = [PublishTaskEvent event_type ev,
        ExchangePublish event_type ev (case broker w of [] \<Rightarrow> True | b # bs \<Rightarrow> b)]
   \<and> length (filter is_exchange_publish (new_actions w (publish_task_event event_type ev w))) = 1
   \<and> broker (publish_task_event event_type ev w) = tl (broker w)
   \<and> redis (publish_task_event event_type ev w) = redis w
   \<and> now (publish_task_event event_type ev w) = now w"
  by (simp add: publish_task_event_def record_action_def new_actions_def Let_def is_exchange_publish_def)

subsection \<open>What each method adds to the history\<close>

lemma logged_Nil: "logged w [] = w"
  by (simp add: logged_def)

lemma record_action_logged: "record_action a w = logged w [a]"
  by (simp add: record_action_def logged_def)

lemma logged_logged: "logged (logged w as) bs = logged w (as @ bs)"
  by (simp add: logged_def)

lemma logged_simps [simp]:
  "now (logged w as) = now w" "redis (logged w as) = redis w"
  "broker (logged w as) = broker w" "task_api (logged w as) = task_api w"
  "history (logged w as) = history w @ map (Pair (now w)) as"
  by (simp_all add: logged_def)

lemma redis_get_frame: "redis w' = redis w \<Longrightarrow> now w' = now w \<Longrightarrow> redis_get w' = redis_get w"
  by (rule ext) (simp add: redis_get_def split: option.splits)

lemma session_frame:
  assumes "redis w' = redis w" and "now w' = now w"
  shows "get_user_telegram_session w' uid = get_user_telegram_session w uid"
proof -
  have "redis_get w' = redis_get w"
    using assms by (rule redis_get_frame)
  then show ?thesis
    by (simp add: get_user_telegram_session_def scan_iter_def assms)
qed

lemma session_logged:
  "get_user_telegram_session (logged w as) uid = get_user_telegram_session w uid"
  by (rule session_frame) simp_all

lemma session_broker:
  "get_user_telegram_session (w\<lparr>broker := b\<rparr>) uid = get_user_telegram_session w uid"
  by (rule session_frame) simp_all

lemma session_history:
  "get_user_telegram_session (w\<lparr>history := h\<rparr>) uid = get_user_telegram_session w uid"
  by (rule session_frame) simp_all

lemma notify_session_logged:
  "notify_session user_session msg w = logged w (notification_of user_session msg)"
proof (cases user_session)
  case None
  then show ?thesis by (simp add: notify_session_def notification_of_def logged_Nil)
next
  case (Some s)
  show ?thesis
    unfolding Some
    by (cases s)
      (simp_all add: notify_session_def notification_of_def send_telegram_notification_def
        record_action_logged logged_Nil json_truthy_def split: option.splits)
qed

lemma publish_task_event_logged:
  "publish_task_event event_type ev w =
     (logged w [PublishTaskEvent event_type ev,
                ExchangePublish event_type ev (case broker w of [] \<Rightarrow> True | b # bs \<Rightarrow> b)])
     \<lparr>broker := tl (broker w)\<rparr>"
  by (simp add: publish_task_event_def record_action_def logged_def Let_def)

lemma send_due_soon_notification_logged:
  "send_due_soon_notification task m w =
     logged w (SendDueSoonNotification task m #
               notification_of (get_user_telegram_session w (JInt (t_user_id task)))
                 (DueSoonMessage task m))"
  by (simp add: send_due_soon_notification_def Let_def notify_session_logged record_action_logged
      logged_logged session_logged)

lemma send_overdue_notification_logged:
  "send_overdue_notification task m w =
     logged w (SendOverdueNotification task m #
               notification_of (get_user_telegram_session w (JInt (t_user_id task)))
                 (OverdueMessage task m))"
  by (simp add: send_overdue_notification_def Let_def notify_session_logged record_action_logged
      logged_logged session_logged)

lemma fetched_task_logged: "fetched_task (logged w as) r = fetched_task w r"
  by (simp add: fetched_task_def split: json.splits option.splits)

lemma send_scheduled_reminder_logged:
  "send_scheduled_reminder r w = logged w (SendScheduledReminder r # scheduled_notification w r)"
proof (cases r)
  case (JObj kv)
  show ?thesis
    unfolding JObj scheduled_notification_def
    by (simp add: send_scheduled_reminder_def Let_def notify_session_logged record_action_logged
        logged_logged session_logged fetched_task_def json_get_def logged_Nil
        split: option.splits)
qed (simp_all add: send_scheduled_reminder_def fetched_task_def record_action_logged Let_def
      scheduled_notification_def)

text \<open>
  C8. A scheduled reminder is never delivered for a finished task: for every payload,
  when the task that \<^verbatim>\<open>_send_scheduled_reminder\<close> fetches for it is \<^verbatim>\<open>COMPLETED\<close> or
  \<^verbatim>\<open>CANCELLED\<close>, the call adds nothing to the history but its own entry (no request to
  the bot service) and leaves Redis as it was.
\<close>

theorem C8_finished_task:
  "fetched_task w reminder_data = Some task \<Longrightarrow>
   t_status task = COMPLETED \<or> t_status task = CANCELLED \<Longrightarrow>
   new_actions w (send_scheduled_reminder reminder_data w) = [SendScheduledReminder reminder_data]
   \<and> redis (send_scheduled_reminder reminder_data w) = redis w"
  by (simp add: send_scheduled_reminder_logged new_actions_def scheduled_notification_def)

subsection \<open>The due-soon call\<close>

lemma due_delta: "dt_sub d (align_tz (utcnow w) d) = Inr (wall d - now w)"
  by (cases d) (simp add: dt_sub_def align_tz_def utcnow_def split: option.splits)

lemma overdue_delta: "dt_sub (align_tz (utcnow w) d) d = Inr (now w - wall d)"
  by (cases d) (simp add: dt_sub_def align_tz_def utcnow_def split: option.splits)

lemma due_soon_sent:
  "redis_setex k secs v
     (send_due_soon_notification task m (publish_task_event ''task.due_soon''
        (TaskDueSoonEvent (t_id task) (t_user_id task) task m) w)) =
   (logged w (due_soon_actions w task m))
     \<lparr>broker := tl (broker w),
      redis := AList.update k (v, Some (now w + secs * 1000000)) (redis w)\<rparr>"
  by (simp add: publish_task_event_logged send_due_soon_notification_logged redis_setex_def
      due_soon_actions_def next_publish_ok_def session_logged session_broker session_history
      logged_def)

lemma process_due_soon_task_eq:
  "process_due_soon_task task w =
     (if truthy (redis_get w (due_soon_key (t_id task))) then w
      else (case t_due_date task of
              None \<Rightarrow> w
            | Some d \<Rightarrow>
                if 0 < minutes_until_due w d \<and> minutes_until_due w d \<le> DUE_SOON_MINUTES then
                  (logged w (due_soon_actions w task (minutes_until_due w d)))
                    \<lparr>broker := tl (broker w),
                     redis := AList.update (due_soon_key (t_id task))
                        (Text ''sent'',
                         Some (now w + max (minutes_until_due w d * 60 + 86400) 3600 * 1000000))
                        (redis w)\<rparr>
                else w))"
  by (auto simp: process_due_soon_task_def Let_def due_delta due_soon_sent minutes_until_due_def
      split: option.splits)

lemma new_actions_logged:
  "new_actions w ((logged w as)\<lparr>broker := b, redis := r\<rparr>) = as"
  by (simp add: new_actions_def comp_def)

lemma new_actions_same: "new_actions w w = []"
  by (simp add: new_actions_def)

subsection \<open>Keys of different tasks differ\<close>

lemma digit_val_digit_char: "d < 10 \<Longrightarrow> digit_val (digit_char d) = d"
  by (simp add: digit_val_def digit_char_def)

lemma nat_of_digits_snoc: "nat_of_digits (s @ [c]) = 10 * nat_of_digits s + digit_val c"
  by (simp add: nat_of_digits_def)

lemma nat_of_digits_str_nat: "nat_of_digits (str_nat n) = n"
proof (induction n rule: str_nat.induct)
  case (1 n)
  show ?case
  proof (cases "n < 10")
    case True
    then show ?thesis
      by (subst str_nat.simps) (simp add: nat_of_digits_def digit_val_digit_char)
  next
    case False
    with 1 have "nat_of_digits (str_nat (n div 10)) = n div 10" by simp
    with False show ?thesis
      by (subst str_nat.simps) (simp add: nat_of_digits_snoc digit_val_digit_char)
  qed
qed

lemma str_nat_inj: "str_nat m = str_nat n \<Longrightarrow> m = n"
  by (metis nat_of_digits_str_nat)

lemma minus_not_digit: "d < 10 \<Longrightarrow> digit_char d \<noteq> CHR ''-''"
proof
  assume "d < 10" and "digit_char d = CHR ''-''"
  then have "of_char (digit_char d) = (of_char (CHR ''-'') :: nat)" by simp
  with \<open>d < 10\<close> show False by (simp add: digit_char_def)
qed

lemma minus_notin_str_nat: "CHR ''-'' \<notin> set (str_nat n)"
proof (induction n rule: str_nat.induct)
  case (1 n)
  show ?case
  proof (cases "n < 10")
    case True
    then show ?thesis
      using minus_not_digit[of n] by (subst str_nat.simps) auto
  next
    case False
    with 1 have "CHR ''-'' \<notin> set (str_nat (n div 10))" by simp
    with False show ?thesis
      using minus_not_digit[of "n mod 10"] by (subst str_nat.simps) auto
  qed
qed

lemma str_int_inj: "str_int i = str_int j \<Longrightarrow> i = j"
proof -
  assume eq: "str_int i = str_int j"
  have neg_pos: False if "a < 0" "0 \<le> b" "str_int a = str_int b" for a b :: int
  proof -
    from that have "CHR ''-'' # str_nat (nat (- a)) = str_nat (nat b)"
      by (simp add: str_int_def)
    then have "CHR ''-'' \<in> set (str_nat (nat b))" by (metis list.set_intros(1))
    then show False using minus_notin_str_nat by blast
  qed
  show "i = j"
  proof (cases "i < 0")
    case True
    show ?thesis
    proof (cases "j < 0")
      case True
      with \<open>i < 0\<close> eq have "nat (- i) = nat (- j)"
        by (auto simp: str_int_def dest: str_nat_inj)
      with True \<open>i < 0\<close> show ?thesis by simp
    next
      case False
      with True eq neg_pos[of i j] show ?thesis by simp
    qed
  next
    case False
    show ?thesis
    proof (cases "j < 0")
      case True
      with False eq neg_pos[of j i] show ?thesis by simp
    next
      case False
      with \<open>\<not> i < 0\<close> eq have "nat i = nat j"
        by (auto simp: str_int_def dest: str_nat_inj)
      with False \<open>\<not> i < 0\<close> show ?thesis by simp
    qed
  qed
qed

lemma due_soon_key_inj: "due_soon_key i = due_soon_key j \<longleftrightarrow> i = j"
  by (auto simp: due_soon_key_def dest: str_int_inj)

lemma overdue_key_inj: "overdue_key i = overdue_key j \<longleftrightarrow> i = j"
  by (auto simp: overdue_key_def dest: str_int_inj)

lemma due_soon_not_overdue: "due_soon_key i \<noteq> overdue_key j"
  by (simp add: due_soon_key_def overdue_key_def)

lemma reminder_not_due_soon: "startswith k ''reminder:'' \<Longrightarrow> k \<noteq> due_soon_key i"
  by (auto simp: startswith_def due_soon_key_def)

lemma reminder_not_overdue: "startswith k ''reminder:'' \<Longrightarrow> k \<noteq> overdue_key i"
  by (auto simp: startswith_def overdue_key_def)

subsection \<open>The overdue call and the scheduled reminders\<close>

lemma recently_sent_open:
  "recently_sent w r = Inr False \<longleftrightarrow>
     (\<not> truthy r \<or> (\<exists>s. r = Some (Iso (Datetime s None)) \<and> timedelta_hours 6 \<le> now w - s))"
proof (cases "truthy r")
  case False
  then show ?thesis by (simp add: recently_sent_def)
next
  case True
  then obtain v where r: "r = Some v" by (cases r) (auto simp: truthy_def)
  show ?thesis
  proof (cases v)
    case (Iso d)
    obtain s tz where d: "d = Datetime s tz" by (cases d)
    show ?thesis
      using True by (cases tz) (auto simp: recently_sent_def r Iso d dt_sub_def utcnow_def)
  qed (use True in \<open>auto simp: recently_sent_def r\<close>)
qed

lemma overdue_sent:
  "redis_setex k secs (Iso (utcnow (send_overdue_notification task m (publish_task_event ''task.overdue''
        (TaskOverdueEvent (t_id task) (t_user_id task) task m) w))))
     (send_overdue_notification task m (publish_task_event ''task.overdue''
        (TaskOverdueEvent (t_id task) (t_user_id task) task m) w)) =
   (logged w (overdue_actions w task m))
     \<lparr>broker := tl (broker w),
      redis := AList.update k (Iso (Datetime (now w) None), Some (now w + secs * 1000000)) (redis w)\<rparr>"
  by (simp add: publish_task_event_logged send_overdue_notification_logged redis_setex_def
      overdue_actions_def next_publish_ok_def session_logged session_broker session_history
      utcnow_def logged_def)

lemma process_overdue_task_eq:
  "process_overdue_task task w =
     (if recently_sent w (redis_get w (overdue_key (t_id task))) = Inr False then
        (case t_due_date task of
           None \<Rightarrow> w
         | Some d \<Rightarrow>
             if 0 < minutes_overdue w d then
               (logged w (overdue_actions w task (minutes_overdue w d)))
                 \<lparr>broker := tl (broker w),
                  redis := AList.update (overdue_key (t_id task))
                     (Iso (Datetime (now w) None), Some (now w + 86400 * 1000000)) (redis w)\<rparr>
             else w)
      else w)"
proof (cases "recently_sent w (redis_get w (overdue_key (t_id task)))")
  case (Inl e)
  then show ?thesis by (simp add: process_overdue_task_def Let_def)
next
  case (Inr b)
  then show ?thesis
    by (cases b)
      (auto simp: process_overdue_task_def Let_def overdue_delta overdue_sent
        minutes_overdue_def split: option.splits)
qed

lemma process_reminder_key_eq:
  "process_reminder_key current_time k w =
     (case due_reminder current_time w k of
        None \<Rightarrow> w
      | Some reminder \<Rightarrow> redis_delete k (send_scheduled_reminder reminder w))"
  by (auto simp: process_reminder_key_def due_reminder_def Let_def truthy_def
      split: option.splits sum.splits)

lemma sent_reminders_append: "sent_reminders (as @ bs) = sent_reminders as @ sent_reminders bs"
  by (simp add: sent_reminders_def)

lemma notification_of_cases:
  "notification_of s m = [] \<or> (\<exists>t. notification_of s m = [TelegramNotification t m])"
  by (auto simp: notification_of_def split: option.splits json.splits)

lemma scheduled_notification_cases:
  "scheduled_notification w r = [] \<or> (\<exists>t m. scheduled_notification w r = [TelegramNotification t m])"
proof (cases "fetched_task w r")
  case None
  then show ?thesis by (simp add: scheduled_notification_def)
next
  case (Some task)
  show ?thesis
  proof (cases r)
    case (JObj kv)
    from Some JObj have ft: "fetched_task w (JObj kv) = Some task" by simp
    show ?thesis
      using notification_of_cases[of "get_user_telegram_session w (json_get kv ''user_id'')"
          "ReminderMessage task (case map_of kv ''message'' of None \<Rightarrow> JStr [] | Some m \<Rightarrow> m)"]
      by (auto simp: scheduled_notification_def ft JObj)
  qed (use Some in \<open>simp_all add: fetched_task_def\<close>)
qed

lemma send_scheduled_reminder_acts:
  "\<exists>as. send_scheduled_reminder r w = logged w (SendScheduledReminder r # as)
        \<and> sent_reminders as = [] \<and> (\<forall>a\<in>set as. reminder_action a)"
proof -
  have "sent_reminders (scheduled_notification w r) = []
      \<and> (\<forall>a\<in>set (scheduled_notification w r). reminder_action a)"
    using scheduled_notification_cases[of w r]
    by (auto simp: sent_reminders_def reminder_action_def)
  then show ?thesis
    using send_scheduled_reminder_logged[of r w] by blast
qed

lemma reminder_key_effect:
  "\<exists>as. process_reminder_key T k w =
          (logged w as)\<lparr>redis := (if due_reminder T w k = None then redis w
                                  else AList.delete k (redis w))\<rparr>
        \<and> sent_reminders as = (case due_reminder T w k of None \<Rightarrow> [] | Some r \<Rightarrow> [r])
        \<and> (\<forall>a\<in>set as. reminder_action a)"
proof (cases "due_reminder T w k")
  case None
  then have "process_reminder_key T k w = (logged w [])\<lparr>redis := redis w\<rparr>"
    by (simp add: process_reminder_key_eq logged_Nil)
  with None show ?thesis
    by (intro exI[of _ "[]"]) (simp add: sent_reminders_def)
next
  case (Some r)
  obtain as where as: "send_scheduled_reminder r w = logged w (SendScheduledReminder r # as)"
    "sent_reminders as = []" "\<forall>a\<in>set as. reminder_action a"
    using send_scheduled_reminder_acts by blast
  have "process_reminder_key T k w =
      (logged w (SendScheduledReminder r # as))\<lparr>redis := AList.delete k (redis w)\<rparr>"
    by (simp add: process_reminder_key_eq Some as(1) redis_delete_def)
  with Some as(2,3) show ?thesis
    by (intro exI[of _ "SendScheduledReminder r # as"])
      (simp add: sent_reminders_def reminder_action_def)
qed

lemma redis_get_deleted:
  "now w' = now w \<Longrightarrow> redis w' = AList.delete k (redis w) \<Longrightarrow>
   redis_get w' k' = (if k' = k then None else redis_get w k')"
  by (auto simp: redis_get_def AList.delete_conv' split: option.splits)

lemma due_reminder_deleted:
  "now w' = now w \<Longrightarrow> redis w' = AList.delete k (redis w) \<Longrightarrow>
   due_reminder T w' k' = (if k' = k then None else due_reminder T w k')"
  by (simp add: due_reminder_def redis_get_deleted)

lemma due_reminder_same:
  "now w' = now w \<Longrightarrow> redis w' = redis w \<Longrightarrow> due_reminder T w' k' = due_reminder T w k'"
  by (auto simp: due_reminder_def redis_get_def split: option.splits)

lemma reminders_fold:
  "\<exists>as. history (foldl (\<lambda>w' k. process_reminder_key T k w') w ks) =
          history w @ map (Pair (now w)) as
      \<and> now (foldl (\<lambda>w' k. process_reminder_key T k w') w ks) = now w
      \<and> (\<forall>k'. map_of (redis (foldl (\<lambda>w' k. process_reminder_key T k w') w ks)) k' =
             (if k' \<in> set ks \<and> due_reminder T w k' \<noteq> None then None else map_of (redis w) k'))
      \<and> set (sent_reminders as) = {r. \<exists>k\<in>set ks. due_reminder T w k = Some r}
      \<and> (\<forall>a\<in>set as. reminder_action a)"
proof (induction ks arbitrary: w)
  case Nil
  show ?case by (intro exI[of _ "[]"]) (simp add: sent_reminders_def)
next
  case (Cons k ks)
  let ?w1 = "process_reminder_key T k w"
  let ?f = "foldl (\<lambda>w' k. process_reminder_key T k w')"
  obtain as1 where step:
    "?w1 = (logged w as1)\<lparr>redis := (if due_reminder T w k = None then redis w
                                       else AList.delete k (redis w))\<rparr>"
    and sent1: "sent_reminders as1 = (case due_reminder T w k of None \<Rightarrow> [] | Some r \<Rightarrow> [r])"
    and act1: "\<forall>a\<in>set as1. reminder_action a"
    using reminder_key_effect[of T k w] by blast
  have now1: "now ?w1 = now w" by (subst step) simp
  have hist1: "history ?w1 = history w @ map (Pair (now w)) as1" by (subst step) simp
  have red1: "redis ?w1 = (if due_reminder T w k = None then redis w else AList.delete k (redis w))"
    by (subst step) simp
  have due1: "due_reminder T ?w1 k' =
      (if k' = k \<and> due_reminder T w k \<noteq> None then None else due_reminder T w k')" for k'
  proof (cases "due_reminder T w k = None")
    case True
    with red1 have "redis ?w1 = redis w" by simp
    with now1 have "due_reminder T ?w1 k' = due_reminder T w k'"
      by (rule due_reminder_same)
    with True show ?thesis by simp
  next
    case False
    with red1 have "redis ?w1 = AList.delete k (redis w)" by simp
    with now1 have "due_reminder T ?w1 k' = (if k' = k then None else due_reminder T w k')"
      by (rule due_reminder_deleted)
    with False show ?thesis by simp
  qed
  from Cons.IH[of ?w1] obtain as2 where
    hist2: "history (?f ?w1 ks) = history ?w1 @ map (Pair (now ?w1)) as2"
    and now2: "now (?f ?w1 ks) = now ?w1"
    and red2: "\<forall>k'. map_of (redis (?f ?w1 ks)) k' =
             (if k' \<in> set ks \<and> due_reminder T ?w1 k' \<noteq> None then None
              else map_of (redis ?w1) k')"
    and sent2: "set (sent_reminders as2) = {r. \<exists>k\<in>set ks. due_reminder T ?w1 k = Some r}"
    and act2: "\<forall>a\<in>set as2. reminder_action a"
    by blast
  have h: "history (?f w (k # ks)) = history w @ map (Pair (now w)) (as1 @ as2)"
    using hist2 hist1 now1 by simp
  have n: "now (?f w (k # ks)) = now w"
    using now2 now1 by simp
  have r: "map_of (redis (?f w (k # ks))) k' =
      (if k' \<in> set (k # ks) \<and> due_reminder T w k' \<noteq> None then None else map_of (redis w) k')"
    for k'
    using red2[rule_format, of k'] by (auto simp: due1 red1 AList.delete_conv')
  have s: "set (sent_reminders (as1 @ as2)) = {r. \<exists>k'\<in>set (k # ks). due_reminder T w k' = Some r}"
    unfolding sent_reminders_append set_append sent2 sent1
    by (auto simp: due1 split: option.splits if_splits) metis+
  have a: "\<forall>a\<in>set (as1 @ as2). reminder_action a"
    using act1 act2 by auto
  from h n r s a show ?case by blast
qed










subsection \<open>Steps and runs\<close>

lemma filter_notification_of:
  "filter (due_soon_sent_to i) (notification_of s msg) = []"
  "filter (overdue_sent_to i) (notification_of s msg) = []"
  using notification_of_cases[of s msg]
  by (auto simp: due_soon_sent_to_def overdue_sent_to_def)

lemma filter_due_soon_actions:
  "filter (due_soon_sent_to i) (due_soon_actions w task m) =
     (if t_id task = i then [SendDueSoonNotification task m] else [])"
  "filter (overdue_sent_to i) (due_soon_actions w task m) = []"
  by (simp_all add: due_soon_actions_def filter_notification_of)
    (simp_all add: due_soon_sent_to_def overdue_sent_to_def)

lemma filter_overdue_actions:
  "filter (overdue_sent_to i) (overdue_actions w task m) =
     (if t_id task = i then [SendOverdueNotification task m] else [])"
  "filter (due_soon_sent_to i) (overdue_actions w task m) = []"
  by (simp_all add: overdue_actions_def filter_notification_of)
    (simp_all add: due_soon_sent_to_def overdue_sent_to_def)

lemma filter_reminder_actions:
  assumes "\<forall>a\<in>set as. reminder_action a"
  shows "filter (due_soon_sent_to i) as = []" and "filter (overdue_sent_to i) as = []"
  using assms
  by (auto simp: filter_empty_conv reminder_action_def due_soon_sent_to_def overdue_sent_to_def
      split: action.splits)

lemma due_soon_summary:
  "process_due_soon_task task w = w
   \<or> (\<not> truthy (redis_get w (due_soon_key (t_id task)))
      \<and> (\<exists>m e. process_due_soon_task task w =
            (logged w (due_soon_actions w task m))
              \<lparr>broker := tl (broker w),
               redis := AList.update (due_soon_key (t_id task)) e (redis w)\<rparr>))"
  by (subst (1 2) process_due_soon_task_eq) (auto split: option.splits)

lemma overdue_summary:
  "process_overdue_task task w = w
   \<or> (recently_sent w (redis_get w (overdue_key (t_id task))) = Inr False
      \<and> (\<exists>m. process_overdue_task task w =
            (logged w (overdue_actions w task m))
              \<lparr>broker := tl (broker w),
               redis := AList.update (overdue_key (t_id task))
                  (Iso (Datetime (now w) None), Some (now w + 86400 * 1000000)) (redis w)\<rparr>))"
  by (subst (1 2) process_overdue_task_eq) (auto split: option.splits)

lemma scan_iter_prefix: "k \<in> set (scan_iter w pre) \<Longrightarrow> startswith k pre"
  by (simp add: scan_iter_def)

lemma scheduled_summary:
  "\<exists>as. history (process_scheduled_reminders T w) = history w @ map (Pair (now w)) as
      \<and> now (process_scheduled_reminders T w) = now w
      \<and> (\<forall>k. \<not> startswith k ''reminder:'' \<longrightarrow>
            map_of (redis (process_scheduled_reminders T w)) k = map_of (redis w) k)
      \<and> (\<forall>a\<in>set as. reminder_action a)"
proof -
  obtain as where
    hist: "history (process_scheduled_reminders T w) = history w @ map (Pair (now w)) as"
    and nw: "now (process_scheduled_reminders T w) = now w"
    and red: "\<forall>k'. map_of (redis (process_scheduled_reminders T w)) k' =
             (if k' \<in> set (scan_iter w ''reminder:'') \<and> due_reminder T w k' \<noteq> None then None
              else map_of (redis w) k')"
    and act: "\<forall>a\<in>set as. reminder_action a"
    using reminders_fold[of T w "scan_iter w ''reminder:''"]
    unfolding process_scheduled_reminders_def by blast
  have "map_of (redis (process_scheduled_reminders T w)) k = map_of (redis w) k"
    if "\<not> startswith k ''reminder:''" for k
    using red[rule_format, of k] that scan_iter_prefix[of k w "''reminder:''"] by auto
  with hist nw act show ?thesis by blast
qed

lemma do_step_now: "now w \<le> now (do_step s w)"
proof (cases s)
  case (Wait d)
  then show ?thesis by simp
next
  case (DueSoon task)
  then show ?thesis using due_soon_summary[of task w] by auto
next
  case (Overdue task)
  then show ?thesis using overdue_summary[of task w] by auto
next
  case (ScheduledReminders T)
  then show ?thesis using scheduled_summary[of T w] by auto
qed

lemma run_snoc: "run (steps @ [s]) w = do_step s (run steps w)"
  by (simp add: run_def)

lemma run_Nil: "run [] w = w"
  by (simp add: run_def)

lemma run_now: "now w \<le> now (run steps w)"
proof (induction steps rule: rev_induct)
  case Nil
  show ?case by (simp add: run_Nil)
next
  case (snoc s steps)
  then show ?case
    using do_step_now[of "run steps w" s] by (simp add: run_snoc)
qed

lemma unexpired_mono: "t \<le> t' \<Longrightarrow> unexpired t' e \<Longrightarrow> unexpired t e"
  by (auto simp: unexpired_def split: option.splits)

lemma redis_get_live:
  "map_of (redis w) k = Some (v, ex) \<Longrightarrow> unexpired (now w) (v, ex) \<Longrightarrow> redis_get w k = Some v"
  by (simp add: redis_get_def)

lemma due_soon_step_frame:
  assumes e: "map_of (redis w) (due_soon_key i) = Some (v, ex)"
    and v: "v \<noteq> Text []"
    and live: "unexpired (now w) (v, ex)"
  shows "\<exists>as. history (do_step s w) = history w @ map (Pair (now w)) as
      \<and> filter (due_soon_sent_to i) as = []
      \<and> map_of (redis (do_step s w)) (due_soon_key i) = Some (v, ex)"
proof (cases s)
  case (Wait d)
  with e show ?thesis by (intro exI[of _ "[]"]) simp
next
  case (DueSoon task)
  from due_soon_summary[of task w] show ?thesis
  proof
    assume "process_due_soon_task task w = w"
    with DueSoon e show ?thesis by (intro exI[of _ "[]"]) simp
  next
    assume a: "\<not> truthy (redis_get w (due_soon_key (t_id task)))
      \<and> (\<exists>m e. process_due_soon_task task w =
            (logged w (due_soon_actions w task m))
              \<lparr>broker := tl (broker w),
               redis := AList.update (due_soon_key (t_id task)) e (redis w)\<rparr>)"
    have ne: "t_id task \<noteq> i"
    proof
      assume "t_id task = i"
      with redis_get_live[OF e live] v a show False by (simp add: truthy_def)
    qed
    from a obtain m e' where
      eq: "process_due_soon_task task w =
            (logged w (due_soon_actions w task m))
              \<lparr>broker := tl (broker w),
               redis := AList.update (due_soon_key (t_id task)) e' (redis w)\<rparr>"
      by blast
    show ?thesis
      using e ne
      by (intro exI[of _ "due_soon_actions w task m"])
        (simp add: DueSoon eq filter_due_soon_actions AList.update_conv' due_soon_key_inj)
  qed
next
  case (Overdue task)
  from overdue_summary[of task w] show ?thesis
  proof
    assume "process_overdue_task task w = w"
    with Overdue e show ?thesis by (intro exI[of _ "[]"]) simp
  next
    assume "recently_sent w (redis_get w (overdue_key (t_id task))) = Inr False
      \<and> (\<exists>m. process_overdue_task task w =
            (logged w (overdue_actions w task m))
              \<lparr>broker := tl (broker w),
               redis := AList.update (overdue_key (t_id task))
                  (Iso (Datetime (now w) None), Some (now w + 86400 * 1000000)) (redis w)\<rparr>)"
    then obtain m where
      eq: "process_overdue_task task w =
            (logged w (overdue_actions w task m))
              \<lparr>broker := tl (broker w),
               redis := AList.update (overdue_key (t_id task))
                  (Iso (Datetime (now w) None), Some (now w + 86400 * 1000000)) (redis w)\<rparr>"
      by blast
    show ?thesis
      using e due_soon_not_overdue[of i "t_id task"]
      by (intro exI[of _ "overdue_actions w task m"])
        (simp add: Overdue eq filter_overdue_actions AList.update_conv')
  qed
next
  case (ScheduledReminders T)
  from scheduled_summary[of T w] obtain as where
    h: "history (process_scheduled_reminders T w) = history w @ map (Pair (now w)) as"
    and r: "\<forall>k. \<not> startswith k ''reminder:'' \<longrightarrow>
            map_of (redis (process_scheduled_reminders T w)) k = map_of (redis w) k"
    and a: "\<forall>a\<in>set as. reminder_action a"
    by blast
  have "\<not> startswith (due_soon_key i) ''reminder:''"
    using reminder_not_due_soon[of "due_soon_key i" i] by blast
  with r have "map_of (redis (process_scheduled_reminders T w)) (due_soon_key i) =
      map_of (redis w) (due_soon_key i)"
    by blast
  with h e filter_reminder_actions(1)[OF a, of i] show ?thesis
    by (intro exI[of _ as]) (simp add: ScheduledReminders)
qed

lemma due_soon_run:
  assumes e: "map_of (redis w) (due_soon_key i) = Some (v, ex)"
    and v: "v \<noteq> Text []"
  shows "unexpired (now (run steps w)) (v, ex) \<Longrightarrow>
     \<exists>bs. history (run steps w) = history w @ bs
        \<and> filter (due_soon_sent_to i) (map snd bs) = []
        \<and> map_of (redis (run steps w)) (due_soon_key i) = Some (v, ex)"
proof (induction steps rule: rev_induct)
  case Nil
  with e show ?case by (simp add: run_Nil)
next
  case (snoc s steps)
  let ?w1 = "run steps w"
  have mono: "now ?w1 \<le> now (run (steps @ [s]) w)"
    using do_step_now[of ?w1 s] by (simp add: run_snoc)
  from mono snoc.prems have live: "unexpired (now ?w1) (v, ex)"
    by (rule unexpired_mono)
  from snoc.IH[OF live] obtain bs where
    h1: "history ?w1 = history w @ bs"
    and f1: "filter (due_soon_sent_to i) (map snd bs) = []"
    and e1: "map_of (redis ?w1) (due_soon_key i) = Some (v, ex)"
    by blast
  from due_soon_step_frame[OF e1 v live, of s] obtain as where
    h2: "history (do_step s ?w1) = history ?w1 @ map (Pair (now ?w1)) as"
    and f2: "filter (due_soon_sent_to i) as = []"
    and e2: "map_of (redis (do_step s ?w1)) (due_soon_key i) = Some (v, ex)"
    by blast
  show ?case
    using h1 h2 f1 f2 e2
    by (intro exI[of _ "bs @ map (Pair (now ?w1)) as"]) (simp add: run_snoc comp_def)
qed

subsection \<open>The spacing of overdue notifications\<close>

lemma overdue_times_append:
  "overdue_times i (h @ map (Pair t) as) =
     overdue_times i h @ map (\<lambda>a. t) (filter (overdue_sent_to i) as)"
  by (simp add: overdue_times_def filter_map comp_def)

lemma overdue_inv_same:
  assumes "overdue_inv i w"
    and "history w' = history w @ map (Pair (now w)) as"
    and "filter (overdue_sent_to i) as = []"
    and "map_of (redis w') (overdue_key i) = map_of (redis w) (overdue_key i)"
    and "now w \<le> now w'"
  shows "overdue_inv i w'"
proof -
  have t: "overdue_times i (history w') = overdue_times i (history w)"
    using assms(2,3) by (simp add: overdue_times_append)
  show ?thesis
    using assms(1,4,5) unfolding overdue_inv_def t by auto
qed

lemma overdue_inv_sent:
  assumes inv: "overdue_inv i w"
    and gate: "recently_sent w (redis_get w (overdue_key i)) = Inr False"
    and h: "history w' = history w @ map (Pair (now w)) as"
    and f: "filter (overdue_sent_to i) as = [a]"
    and r: "map_of (redis w') (overdue_key i) =
              Some (Iso (Datetime (now w) None), Some (now w + 86400 * 1000000))"
    and n: "now w' = now w"
  shows "overdue_inv i w'"
proof -
  let ?old = "overdue_times i (history w)"
  have t: "overdue_times i (history w') = ?old @ [now w]"
    using h f by (simp add: overdue_times_append)
  have gap: "t + timedelta_hours 6 \<le> now w" if "t \<in> set ?old" for t
  proof -
    from that have "?old \<noteq> []" by auto
    with inv obtain s where
      e: "map_of (redis w) (overdue_key i) = Some (Iso (Datetime s None), Some (s + 86400 * 1000000))"
      and "s \<le> now w" and le: "\<forall>t\<in>set ?old. t \<le> s"
      unfolding overdue_inv_def by blast
    from le that have ts: "t \<le> s" by simp
    from gate have "\<not> truthy (redis_get w (overdue_key i))
        \<or> (\<exists>s'. redis_get w (overdue_key i) = Some (Iso (Datetime s' None))
              \<and> timedelta_hours 6 \<le> now w - s')"
      by (simp add: recently_sent_open)
    then show ?thesis
    proof
      assume "\<not> truthy (redis_get w (overdue_key i))"
      with e have "\<not> now w < s + 86400 * 1000000"
        by (auto simp: redis_get_def truthy_def unexpired_def split: if_splits)
      with ts show ?thesis by (simp add: timedelta_hours_def)
    next
      assume "\<exists>s'. redis_get w (overdue_key i) = Some (Iso (Datetime s' None))
              \<and> timedelta_hours 6 \<le> now w - s'"
      then obtain s' where g: "redis_get w (overdue_key i) = Some (Iso (Datetime s' None))"
        and far: "timedelta_hours 6 \<le> now w - s'" by blast
      from g e have "s' = s"
        by (auto simp: redis_get_def split: if_splits)
      with far ts show ?thesis by simp
    qed
  qed
  have old_le: "t \<le> now w" if "t \<in> set ?old" for t
    using gap[OF that] by (simp add: timedelta_hours_def)
  have sp: "spaced (?old @ [now w])"
    using inv gap by (auto simp: spaced_def overdue_inv_def sorted_wrt_append)
  show ?thesis
    unfolding overdue_inv_def t
    using sp r n old_le by auto
qed

subsection \<open>The claims about due-soon and overdue tasks\<close>

lemma no_due_soon_key: "\<not> truthy (redis_get session_world (due_soon_key (t_id task0)))"
  by code_simp

lemma task0_minutes: "minutes_until_due session_world (Datetime 1800000000 None) = 30"
  by code_simp

lemma sent_world_key: "truthy (redis_get sent_world (due_soon_key (t_id task0)))"
  by code_simp


lemma reminder5_task: "fetched_task reminders_world reminder5 = Some done_task"
  by code_simp

lemma session_of_user: "get_user_telegram_session session_world (JInt 7) =
    Some (JObj [(''user_id'', JInt 7), (''telegram_id'', JInt 99)])"
  by code_simp

lemma due_soon_key_5: "due_soon_key 5 = ''due_soon_sent:5''"
  by code_simp


lemma task0_actions: "new_actions session_world (process_due_soon_task task0 session_world) =
   [PublishTaskEvent ''task.due_soon'' (TaskDueSoonEvent 5 7 task0 30),
    ExchangePublish ''task.due_soon'' (TaskDueSoonEvent 5 7 task0 30) True,
    SendDueSoonNotification task0 30,
    TelegramNotification (JInt 99) (DueSoonMessage task0 30)]"
proof -
  have d: "t_due_date task0 = Some (Datetime 1800000000 None)" "t_id task0 = 5" "t_user_id task0 = 7"
    by (simp_all add: task0_def)
  have b: "next_publish_ok session_world"
    by (simp add: next_publish_ok_def session_world_def)
  show ?thesis
    using no_due_soon_key
    by (simp add: process_due_soon_task_eq d task0_minutes DUE_SOON_MINUTES_def new_actions_logged
        due_soon_actions_def session_of_user notification_of_def b)
qed

text \<open>
  C3. For a task without \<^verbatim>\<open>due_soon_sent:{task.id}\<close> key, with
  \<open>minutes_until_due\<close> the whole minutes from now to the due date:
  \<^verbatim>\<open>_process_due_soon_task\<close> publishes the \<^verbatim>\<open>task.due_soon\<close> event carrying
  \<open>due_in_minutes = minutes_until_due\<close> and calls the due-soon notification if and only if
  \<open>0 < minutes_until_due \<le> DUE_SOON_MINUTES\<close>; inside the window it does exactly
  \<open>due_soon_actions\<close>, outside of it (and for a task without due date) it changes nothing:
  no event, no notification, no key.
\<close>

theorem C3_due_soon_window:
  assumes "\<not> truthy (redis_get w (due_soon_key (t_id task)))"
  shows
    "(\<forall>d. t_due_date task = Some d \<longrightarrow>
        ((PublishTaskEvent ''task.due_soon''
             (TaskDueSoonEvent (t_id task) (t_user_id task) task (minutes_until_due w d))
             \<in> set (new_actions w (process_due_soon_task task w))
          \<and> SendDueSoonNotification task (minutes_until_due w d)
             \<in> set (new_actions w (process_due_soon_task task w)))
         \<longleftrightarrow> (0 < minutes_until_due w d \<and> minutes_until_due w d \<le> DUE_SOON_MINUTES))
      \<and> (0 < minutes_until_due w d \<and> minutes_until_due w d \<le> DUE_SOON_MINUTES \<longrightarrow>
           new_actions w (process_due_soon_task task w)
             = due_soon_actions w task (minutes_until_due w d))
      \<and> (\<not> (0 < minutes_until_due w d \<and> minutes_until_due w d \<le> DUE_SOON_MINUTES) \<longrightarrow>
           process_due_soon_task task w = w))
     \<and> (t_due_date task = None \<longrightarrow> process_due_soon_task task w = w)"
proof (intro conjI allI impI)
  assume "t_due_date task = None"
  with assms show "process_due_soon_task task w = w"
    by (simp add: process_due_soon_task_eq)
next
  fix d
  assume d: "t_due_date task = Some d"
  let ?m = "minutes_until_due w d"
  let ?win = "0 < ?m \<and> ?m \<le> DUE_SOON_MINUTES"
  have inside: "new_actions w (process_due_soon_task task w) = due_soon_actions w task ?m" if ?win
    using assms d that by (simp add: process_due_soon_task_eq new_actions_logged)
  have outside: "process_due_soon_task task w = w" if "\<not> ?win"
    using assms d that by (auto simp: process_due_soon_task_eq)
  show "(PublishTaskEvent ''task.due_soon''
             (TaskDueSoonEvent (t_id task) (t_user_id task) task ?m)
             \<in> set (new_actions w (process_due_soon_task task w))
          \<and> SendDueSoonNotification task ?m
             \<in> set (new_actions w (process_due_soon_task task w)))
         \<longleftrightarrow> ?win"
  proof (cases ?win)
    case True
    then show ?thesis by (simp add: inside due_soon_actions_def)
  next
    case False
    then show ?thesis using outside[OF False] by (simp add: new_actions_same)
  qed
  show "new_actions w (process_due_soon_task task w) = due_soon_actions w task ?m" if ?win
    using that by (rule inside)
  show "process_due_soon_task task w = w" if "\<not> ?win"
    using that by (rule outside)
qed

lemma later_task_minutes: "minutes_until_due session_world (Datetime 7200000000 None) = 120"
  by code_simp

theorem C3_due_soon_window_witness:
  "\<not> truthy (redis_get session_world (due_soon_key (t_id task0)))
   \<and> minutes_until_due session_world (Datetime 1800000000 None) = 30
   \<and> SendDueSoonNotification task0 30
       \<in> set (new_actions session_world (process_due_soon_task task0 session_world))
   \<and> new_actions session_world (process_due_soon_task task0 session_world)
       = due_soon_actions session_world task0 30
   \<and> minutes_until_due session_world (Datetime 7200000000 None) = 120
   \<and> process_due_soon_task later_task session_world = session_world
   \<and> process_due_soon_task undated_task session_world = session_world"
proof -
  have d: "t_due_date task0 = Some (Datetime 1800000000 None)"
    by (simp add: task0_def)
  from C3_due_soon_window[OF no_due_soon_key] d task0_minutes have
    "(PublishTaskEvent ''task.due_soon''
          (TaskDueSoonEvent (t_id task0) (t_user_id task0) task0 30)
          \<in> set (new_actions session_world (process_due_soon_task task0 session_world))
        \<and> SendDueSoonNotification task0 30
          \<in> set (new_actions session_world (process_due_soon_task task0 session_world)))
       \<longleftrightarrow> (0 < (30::int) \<and> 30 \<le> DUE_SOON_MINUTES)"
    and "0 < (30::int) \<and> 30 \<le> DUE_SOON_MINUTES \<longrightarrow>
      new_actions session_world (process_due_soon_task task0 session_world)
        = due_soon_actions session_world task0 30"
    by fastforce+
  then have inside: "SendDueSoonNotification task0 30
       \<in> set (new_actions session_world (process_due_soon_task task0 session_world))"
    "new_actions session_world (process_due_soon_task task0 session_world)
       = due_soon_actions session_world task0 30"
    by (simp_all add: DUE_SOON_MINUTES_def)
  have k: "\<not> truthy (redis_get session_world (due_soon_key (t_id later_task)))"
    "\<not> truthy (redis_get session_world (due_soon_key (t_id undated_task)))"
    using no_due_soon_key by (simp_all add: later_task_def undated_task_def)
  have l: "t_due_date later_task = Some (Datetime 7200000000 None)"
    by (simp add: later_task_def)
  have out: "\<not> (0 < minutes_until_due session_world (Datetime 7200000000 None)
      \<and> minutes_until_due session_world (Datetime 7200000000 None) \<le> DUE_SOON_MINUTES)"
    by (simp add: later_task_minutes DUE_SOON_MINUTES_def)
  from C3_due_soon_window[OF k(1)] l out
  have later: "process_due_soon_task later_task session_world = session_world"
    by blast
  have u: "t_due_date undated_task = None"
    by (simp add: undated_task_def)
  from C3_due_soon_window[OF k(2)] u
  have undated: "process_due_soon_task undated_task session_world = session_world"
    by blast
  from no_due_soon_key task0_minutes inside later_task_minutes later undated
  show ?thesis by blast
qed

text \<open>
  C2. While the key \<^verbatim>\<open>due_soon_sent:{task.id}\<close> is set, \<^verbatim>\<open>_process_due_soon_task\<close> returns
  at once and changes nothing. The call writes to Redis only when it has published the
  event and called the notification, and then sets that key to \<^verbatim>\<open>sent\<close> with the expiry
  \<open>max (minutes_until_due * 60 + 86400) 3600\<close> seconds. And in every run of the worker, as
  long as an entry under the key of task \<open>i\<close> has not expired, no due-soon notification
  of task \<open>i\<close> is sent.
\<close>

theorem C2_due_soon_deduplication:
  "(truthy (redis_get w (due_soon_key (t_id task))) \<longrightarrow> process_due_soon_task task w = w)
   \<and> (redis (process_due_soon_task task w) \<noteq> redis w \<longrightarrow>
        (\<exists>d. t_due_date task = Some d
           \<and> new_actions w (process_due_soon_task task w)
               = due_soon_actions w task (minutes_until_due w d)
           \<and> redis (process_due_soon_task task w)
               = AList.update (due_soon_key (t_id task))
                   (Text ''sent'',
                    Some (now w + max (minutes_until_due w d * 60 + 86400) 3600 * 1000000))
                   (redis w)))
   \<and> (map_of (redis w) (due_soon_key i) = Some (v, ex) \<and> v \<noteq> Text []
        \<and> unexpired (now (run steps w)) (v, ex) \<longrightarrow>
        filter (due_soon_sent_to i) (new_actions w (run steps w)) = [])"
proof (intro conjI impI)
  assume "truthy (redis_get w (due_soon_key (t_id task)))"
  then show "process_due_soon_task task w = w"
    by (simp add: process_due_soon_task_eq)
next
  assume ch: "redis (process_due_soon_task task w) \<noteq> redis w"
  have "t_due_date task \<noteq> None"
  proof
    assume "t_due_date task = None"
    then have "process_due_soon_task task w = w"
      by (simp add: process_due_soon_task_eq)
    with ch show False by simp
  qed
  then obtain d where d: "t_due_date task = Some d" by blast
  from ch d have win: "\<not> truthy (redis_get w (due_soon_key (t_id task)))"
      "0 < minutes_until_due w d \<and> minutes_until_due w d \<le> DUE_SOON_MINUTES"
    by (auto simp: process_due_soon_task_eq split: if_splits)
  with d show "\<exists>d. t_due_date task = Some d
           \<and> new_actions w (process_due_soon_task task w)
               = due_soon_actions w task (minutes_until_due w d)
           \<and> redis (process_due_soon_task task w)
               = AList.update (due_soon_key (t_id task))
                   (Text ''sent'',
                    Some (now w + max (minutes_until_due w d * 60 + 86400) 3600 * 1000000))
                   (redis w)"
    by (simp add: process_due_soon_task_eq new_actions_logged)
next
  assume a: "map_of (redis w) (due_soon_key i) = Some (v, ex) \<and> v \<noteq> Text []
        \<and> unexpired (now (run steps w)) (v, ex)"
  then obtain bs where "history (run steps w) = history w @ bs"
    "filter (due_soon_sent_to i) (map snd bs) = []"
    using due_soon_run[of w i v ex steps] by blast
  then show "filter (due_soon_sent_to i) (new_actions w (run steps w)) = []"
    by (simp add: new_actions_def)
qed

theorem C2_due_soon_deduplication_witness:
  "truthy (redis_get sent_world (due_soon_key (t_id task0)))
   \<and> process_due_soon_task task0 sent_world = sent_world
   \<and> filter (due_soon_sent_to 5)
       (new_actions sent_world (run [DueSoon task0, Wait 1000, DueSoon task0] sent_world)) = []
   \<and> redis (process_due_soon_task task0 session_world)
       = AList.update (due_soon_key (t_id task0)) (Text ''sent'', Some 88200000000)
           (redis session_world)"
proof -
  note inst = C2_due_soon_deduplication[of sent_world task0 5 "Text ''sent''" None
      "[DueSoon task0, Wait 1000, DueSoon task0]"]
  have e: "map_of (redis sent_world) (due_soon_key 5) = Some (Text ''sent'', None)"
    by (simp add: sent_world_def due_soon_key_5)
  have u: "unexpired t (Text ''sent'', None)" for t
    by (simp add: unexpired_def)
  have d: "t_due_date task0 = Some (Datetime 1800000000 None)" "t_id task0 = 5"
    by (simp_all add: task0_def)
  have n: "now session_world = 0"
    by (simp add: session_world_def)
  have "redis (process_due_soon_task task0 session_world)
      = AList.update (due_soon_key 5) (Text ''sent'', Some 88200000000) (redis session_world)"
    using no_due_soon_key by (simp add: process_due_soon_task_eq d task0_minutes DUE_SOON_MINUTES_def n)
  then have ch: "redis (process_due_soon_task task0 session_world) \<noteq> redis session_world"
    by (simp add: due_soon_key_5 session_world_def)
  from C2_due_soon_deduplication[of session_world task0 5 "Text ''sent''" None "[]"] ch
  have "redis (process_due_soon_task task0 session_world)
       = AList.update (due_soon_key (t_id task0)) (Text ''sent'', Some 88200000000)
           (redis session_world)"
    by (auto simp: d task0_minutes n)
  with inst sent_world_key e u show ?thesis by simp
qed

lemma overdue_inv_step:
  assumes inv: "overdue_inv i w"
  shows "overdue_inv i (do_step s w)"
proof (cases s)
  case (Wait d)
  have "history (w\<lparr>now := now w + int d\<rparr>) = history w @ map (Pair (now w)) []" by simp
  with inv show ?thesis
    unfolding Wait do_step.simps
    by (rule overdue_inv_same) simp_all
next
  case (DueSoon task)
  from due_soon_summary[of task w] show ?thesis
  proof
    assume "process_due_soon_task task w = w"
    with inv DueSoon show ?thesis by simp
  next
    assume "\<not> truthy (redis_get w (due_soon_key (t_id task)))
      \<and> (\<exists>m e. process_due_soon_task task w =
            (logged w (due_soon_actions w task m))
              \<lparr>broker := tl (broker w),
               redis := AList.update (due_soon_key (t_id task)) e (redis w)\<rparr>)"
    then obtain m e where
      eq: "process_due_soon_task task w =
            (logged w (due_soon_actions w task m))
              \<lparr>broker := tl (broker w),
               redis := AList.update (due_soon_key (t_id task)) e (redis w)\<rparr>"
      by blast
    have "overdue_inv i (process_due_soon_task task w)"
      using inv
    proof (rule overdue_inv_same)
      show "history (process_due_soon_task task w) =
          history w @ map (Pair (now w)) (due_soon_actions w task m)"
        by (simp add: eq)
      show "filter (overdue_sent_to i) (due_soon_actions w task m) = []"
        by (rule filter_due_soon_actions)
      show "map_of (redis (process_due_soon_task task w)) (overdue_key i) =
          map_of (redis w) (overdue_key i)"
        using due_soon_not_overdue[of "t_id task" i] by (simp add: eq AList.update_conv')
      show "now w \<le> now (process_due_soon_task task w)"
        by (simp add: eq)
    qed
    with DueSoon show ?thesis by simp
  qed
next
  case (Overdue task)
  from overdue_summary[of task w] show ?thesis
  proof
    assume "process_overdue_task task w = w"
    with inv Overdue show ?thesis by simp
  next
    assume a: "recently_sent w (redis_get w (overdue_key (t_id task))) = Inr False
      \<and> (\<exists>m. process_overdue_task task w =
            (logged w (overdue_actions w task m))
              \<lparr>broker := tl (broker w),
               redis := AList.update (overdue_key (t_id task))
                  (Iso (Datetime (now w) None), Some (now w + 86400 * 1000000)) (redis w)\<rparr>)"
    then obtain m where
      eq: "process_overdue_task task w =
            (logged w (overdue_actions w task m))
              \<lparr>broker := tl (broker w),
               redis := AList.update (overdue_key (t_id task))
                  (Iso (Datetime (now w) None), Some (now w + 86400 * 1000000)) (redis w)\<rparr>"
      by blast
    have h: "history (process_overdue_task task w) =
          history w @ map (Pair (now w)) (overdue_actions w task m)"
      by (simp add: eq)
    have "overdue_inv i (process_overdue_task task w)"
    proof (cases "t_id task = i")
      case True
      from inv show ?thesis
      proof (rule overdue_inv_sent)
        show "recently_sent w (redis_get w (overdue_key i)) = Inr False"
          using a True by simp
        show "history (process_overdue_task task w) =
          history w @ map (Pair (now w)) (overdue_actions w task m)"
          by (rule h)
        show "filter (overdue_sent_to i) (overdue_actions w task m) = [SendOverdueNotification task m]"
          using True by (simp add: filter_overdue_actions)
        show "map_of (redis (process_overdue_task task w)) (overdue_key i) =
            Some (Iso (Datetime (now w) None), Some (now w + 86400 * 1000000))"
          using True by (simp add: eq AList.update_conv')
        show "now (process_overdue_task task w) = now w"
          by (simp add: eq)
      qed
    next
      case False
      from inv h show ?thesis
      proof (rule overdue_inv_same)
        show "filter (overdue_sent_to i) (overdue_actions w task m) = []"
          using False by (simp add: filter_overdue_actions)
        show "map_of (redis (process_overdue_task task w)) (overdue_key i) =
            map_of (redis w) (overdue_key i)"
          using False by (simp add: eq AList.update_conv' overdue_key_inj)
        show "now w \<le> now (process_overdue_task task w)"
          by (simp add: eq)
      qed
    qed
    with Overdue show ?thesis by simp
  qed
next
  case (ScheduledReminders T)
  from scheduled_summary[of T w] obtain as where
    h: "history (process_scheduled_reminders T w) = history w @ map (Pair (now w)) as"
    and n: "now (process_scheduled_reminders T w) = now w"
    and r: "\<forall>k. \<not> startswith k ''reminder:'' \<longrightarrow>
            map_of (redis (process_scheduled_reminders T w)) k = map_of (redis w) k"
    and a: "\<forall>a\<in>set as. reminder_action a"
    by blast
  have "\<not> startswith (overdue_key i) ''reminder:''"
    using reminder_not_overdue[of "overdue_key i" i] by blast
  with r have r': "map_of (redis (process_scheduled_reminders T w)) (overdue_key i) =
      map_of (redis w) (overdue_key i)"
    by blast
  have "overdue_inv i (process_scheduled_reminders T w)"
    using inv h filter_reminder_actions(2)[OF a, of i] r'
    by (rule overdue_inv_same) (simp add: n)
  with ScheduledReminders show ?thesis by simp
qed

lemma overdue_inv_run: "overdue_inv i w \<Longrightarrow> overdue_inv i (run steps w)"
  by (induction steps rule: rev_induct) (simp_all add: run_Nil run_snoc overdue_inv_step)

text \<open>
  C4. \<^verbatim>\<open>_process_overdue_task\<close> publishes \<^verbatim>\<open>task.overdue\<close> and calls the overdue
  notification only when the whole minutes since the due date are positive and either
  no \<^verbatim>\<open>overdue_sent:{task.id}\<close> record is there or the recorded time is at least six
  hours back; it then stores the current time under that key with an expiry of 24
  hours (and under these conditions it does publish and notify). So, in every run of
  the worker that starts without overdue notifications of task \<open>i\<close> in its history, any
  two overdue notifications of task \<open>i\<close> are at least six hours apart.
\<close>

theorem C4_overdue_rate_limit:
  "(new_actions w (process_overdue_task task w) \<noteq> [] \<longrightarrow>
      (\<exists>d. t_due_date task = Some d \<and> 0 < minutes_overdue w d
          \<and> new_actions w (process_overdue_task task w)
              = overdue_actions w task (minutes_overdue w d))
      \<and> (\<not> truthy (redis_get w (overdue_key (t_id task)))
          \<or> (\<exists>s. redis_get w (overdue_key (t_id task)) = Some (Iso (Datetime s None))
                \<and> timedelta_hours 6 \<le> now w - s))
      \<and> map_of (redis (process_overdue_task task w)) (overdue_key (t_id task))
          = Some (Iso (utcnow w), Some (now w + 86400 * 1000000)))
   \<and> ((\<not> truthy (redis_get w (overdue_key (t_id task)))
          \<or> (\<exists>s. redis_get w (overdue_key (t_id task)) = Some (Iso (Datetime s None))
                \<and> timedelta_hours 6 \<le> now w - s))
       \<and> t_due_date task = Some d \<and> 0 < minutes_overdue w d \<longrightarrow>
       new_actions w (process_overdue_task task w) = overdue_actions w task (minutes_overdue w d))
   \<and> (overdue_times i (history w) = [] \<longrightarrow> spaced (overdue_times i (history (run steps w))))"
proof (intro conjI impI)
  assume ne: "new_actions w (process_overdue_task task w) \<noteq> []"
  then have neq: "process_overdue_task task w \<noteq> w"
    using new_actions_same[of w] by auto
  then have gate: "recently_sent w (redis_get w (overdue_key (t_id task))) = Inr False"
    by (subst (asm) process_overdue_task_eq) (simp split: if_splits)
  have "t_due_date task \<noteq> None"
  proof
    assume "t_due_date task = None"
    then have "process_overdue_task task w = w"
      by (simp add: process_overdue_task_eq)
    with neq show False by simp
  qed
  then obtain d where d: "t_due_date task = Some d" by blast
  have pos: "0 < minutes_overdue w d"
  proof (rule ccontr)
    assume "\<not> 0 < minutes_overdue w d"
    with d have "process_overdue_task task w = w"
      by (simp add: process_overdue_task_eq)
    with neq show False by simp
  qed
  from gate d pos have eq: "process_overdue_task task w =
      (logged w (overdue_actions w task (minutes_overdue w d)))
        \<lparr>broker := tl (broker w),
         redis := AList.update (overdue_key (t_id task))
            (Iso (Datetime (now w) None), Some (now w + 86400 * 1000000)) (redis w)\<rparr>"
    by (simp add: process_overdue_task_eq)
  show "\<exists>d. t_due_date task = Some d \<and> 0 < minutes_overdue w d
          \<and> new_actions w (process_overdue_task task w)
              = overdue_actions w task (minutes_overdue w d)"
    using d pos by (simp add: eq new_actions_logged)
  show "\<not> truthy (redis_get w (overdue_key (t_id task)))
          \<or> (\<exists>s. redis_get w (overdue_key (t_id task)) = Some (Iso (Datetime s None))
                \<and> timedelta_hours 6 \<le> now w - s)"
    using gate by (simp add: recently_sent_open)
  show "map_of (redis (process_overdue_task task w)) (overdue_key (t_id task))
          = Some (Iso (utcnow w), Some (now w + 86400 * 1000000))"
    by (simp add: eq AList.update_conv' utcnow_def)
next
  assume a: "(\<not> truthy (redis_get w (overdue_key (t_id task)))
          \<or> (\<exists>s. redis_get w (overdue_key (t_id task)) = Some (Iso (Datetime s None))
                \<and> timedelta_hours 6 \<le> now w - s))
       \<and> t_due_date task = Some d \<and> 0 < minutes_overdue w d"
  then have "recently_sent w (redis_get w (overdue_key (t_id task))) = Inr False"
    by (simp add: recently_sent_open)
  with a show "new_actions w (process_overdue_task task w)
      = overdue_actions w task (minutes_overdue w d)"
    by (simp add: process_overdue_task_eq new_actions_logged)
next
  assume "overdue_times i (history w) = []"
  then have "overdue_inv i w"
    by (simp add: overdue_inv_def spaced_def)
  then have "overdue_inv i (run steps w)"
    by (rule overdue_inv_run)
  then show "spaced (overdue_times i (history (run steps w)))"
    by (simp add: overdue_inv_def)
qed

lemma no_overdue_key: "\<not> truthy (redis_get session_world (overdue_key (t_id overdue_task)))"
  by code_simp

lemma overdue_task_minutes: "minutes_overdue session_world (Datetime (- 7200000000) None) = 120"
  by code_simp

theorem C4_overdue_rate_limit_witness:
  "\<not> truthy (redis_get session_world (overdue_key (t_id overdue_task)))
   \<and> new_actions session_world (process_overdue_task overdue_task session_world)
       = overdue_actions session_world overdue_task 120
   \<and> map_of (redis (process_overdue_task overdue_task session_world))
        (overdue_key (t_id overdue_task))
       = Some (Iso (utcnow session_world), Some (now session_world + 86400 * 1000000))
   \<and> spaced (overdue_times 5 (history (run [Overdue overdue_task, Wait 3600000000,
         Overdue overdue_task, Wait 21600000000, Overdue overdue_task] session_world)))"
proof -
  have d: "t_due_date overdue_task = Some (Datetime (- 7200000000) None)"
    by (simp add: overdue_task_def)
  have h: "overdue_times 5 (history session_world) = []"
    by (simp add: session_world_def overdue_times_def)
  have p: "0 < minutes_overdue session_world (Datetime (- 7200000000) None)"
    by (simp add: overdue_task_minutes)
  note inst = C4_overdue_rate_limit[of session_world overdue_task "Datetime (- 7200000000) None" 5
      "[Overdue overdue_task, Wait 3600000000, Overdue overdue_task, Wait 21600000000,
        Overdue overdue_task]"]
  from inst no_overdue_key d p have
    "new_actions session_world (process_overdue_task overdue_task session_world)
       = overdue_actions session_world overdue_task
           (minutes_overdue session_world (Datetime (- 7200000000) None))"
    by blast
  then have c2: "new_actions session_world (process_overdue_task overdue_task session_world)
       = overdue_actions session_world overdue_task 120"
    by (simp only: overdue_task_minutes)
  then have ne: "new_actions session_world (process_overdue_task overdue_task session_world) \<noteq> []"
    by (simp add: overdue_actions_def)
  from inst ne have c1: "map_of (redis (process_overdue_task overdue_task session_world))
        (overdue_key (t_id overdue_task))
       = Some (Iso (utcnow session_world), Some (now session_world + 86400 * 1000000))"
    by blast
  from inst h have c3: "spaced (overdue_times 5 (history (run [Overdue overdue_task,
         Wait 3600000000, Overdue overdue_task, Wait 21600000000, Overdue overdue_task]
         session_world)))"
    by blast
  from no_overdue_key c1 c2 c3 show ?thesis by blast
qed


theorem C8_finished_task_witness:
  "fetched_task reminders_world reminder5 = Some done_task
   \<and> t_status done_task = COMPLETED
   \<and> new_actions reminders_world (send_scheduled_reminder reminder5 reminders_world)
       = [SendScheduledReminder reminder5]"
proof -
  have st: "t_status done_task = COMPLETED"
    by (simp add: done_task_def)
  from C8_finished_task[OF reminder5_task] st have
    "new_actions reminders_world (send_scheduled_reminder reminder5 reminders_world)
       = [SendScheduledReminder reminder5]"
    by blast
  with reminder5_task st show ?thesis by blast
qed

end
